theory Spec2Isabelle
  imports Main
begin

section \<open>Values exchanged on the wire\<close>

text \<open>
  The server of \<^verbatim>\<open>chess_server.py\<close> exchanges one JSON value per line. A decoded
  value is a Python object; the model keeps the constructors the server can tell apart
  (\<^verbatim>\<open>None\<close>, booleans, integers, strings, lists, dicts). A dict is an association
  list in insertion order; floating-point numbers are left out, no operation of the
  server looks at one.
\<close>

datatype json =
    JNull
  | JBool bool
  | JInt int
  | JStr string
  | JArr "json list"
  | JObj "(string \<times> json) list"

text \<open>Python truthiness, as \<^verbatim>\<open>if x:\<close> and \<^verbatim>\<open>not x\<close> see a value.\<close>

fun truthy :: "json \<Rightarrow> bool" where
  "truthy JNull = False"
| "truthy (JBool b) = b"
| "truthy (JInt n) = (n \<noteq> 0)"
| "truthy (JStr s) = (s \<noteq> [])"
| "truthy (JArr xs) = (xs \<noteq> [])"
| "truthy (JObj kv) = (kv \<noteq> [])"

text \<open>
  \<^verbatim>\<open>d.get(k, default)\<close>. Only a dict has the method: on any other value the call
  raises \<^verbatim>\<open>AttributeError\<close>, which is the result \<open>None\<close> here.
\<close>

fun dict_get :: "json \<Rightarrow> string \<Rightarrow> json \<Rightarrow> json option" where
  "dict_get (JObj kv) k d = Some (case map_of kv k of None \<Rightarrow> d | Some v \<Rightarrow> v)"
| "dict_get _ k d = None"

fun is_str :: "json \<Rightarrow> bool" where
  "is_str (JStr s) = True"
| "is_str _ = False"

fun is_dict :: "json \<Rightarrow> bool" where
  "is_dict (JObj kv) = True"
| "is_dict _ = False"

text \<open>An \<^verbatim>\<open>Optional[str]\<close> attribute as it is written into an outgoing dict.\<close>

fun opt_str :: "string option \<Rightarrow> json" where
  "opt_str None = JNull"
| "opt_str (Some s) = JStr s"

text \<open>
  \<^verbatim>\<open>str.strip()\<close> removes leading and trailing whitespace. Strings are lists of
  8-bit characters here, so the whitespace characters are those of Python below code
  point 256.
\<close>

definition whitespace_chars :: "char list" where
  "whitespace_chars =
     [CHR 0x09, CHR 0x0A, CHR 0x0B, CHR 0x0C, CHR 0x0D, CHR 0x1C, CHR 0x1D, CHR 0x1E,
      CHR 0x1F, CHR 0x20, CHR 0x85, CHR 0xA0]"

definition py_isspace :: "char \<Rightarrow> bool" where
  "py_isspace c = (c \<in> set whitespace_chars)"

definition strip :: "string \<Rightarrow> string" where
  "strip s = rev (dropWhile py_isspace (rev (dropWhile py_isspace s)))"

text \<open>The decimal digits of a natural number, as \<^verbatim>\<open>f"{i}"\<close> prints an \<^verbatim>\<open>int\<close>.\<close>

definition digit_char :: "nat \<Rightarrow> char" where
  "digit_char d = ''0123456789'' ! d"

fun dec :: "nat \<Rightarrow> string" where
  "dec n = (if n < 10 then [digit_char n] else dec (n div 10) @ [digit_char (n mod 10)])"

declare dec.simps [simp del]

section \<open>Collaborators outside the server file\<close>

text \<open>
  \<^verbatim>\<open>chess_server.py\<close> imports the rules engine \<^verbatim>\<open>chess_logic\<close> and the standard
  \<^verbatim>\<open>json\<close> module. Neither is part of the server; what the server calls on them is
  a parameter of the model. \<open>'b\<close> is the type of board values, \<open>'m\<close> of moves.
  \<^item> \<open>new_board\<close>: \<^verbatim>\<open>chess_logic.Board()\<close>;
  \<^item> \<open>new_move\<close>: \<^verbatim>\<open>chess_logic.Move(uci)\<close>, \<open>None\<close> when the constructor raises;
  \<^item> \<open>move_uci\<close>: the attribute \<^verbatim>\<open>mv.uci\<close>;
  \<^item> \<open>board_turn\<close>, \<open>board_result\<close>: the attributes \<^verbatim>\<open>board.turn\<close> and
    \<^verbatim>\<open>board.result\<close>;
  \<^item> \<open>board_fen\<close>, \<open>board_king_pos\<close>, \<open>board_is_square_attacked_by\<close>,
    \<open>board_enemy\<close>: the methods of the same names;
  \<^item> \<open>board_make_move\<close>: \<^verbatim>\<open>board.make_move(mv)\<close>, which returns \<^verbatim>\<open>(ok, reason)\<close>
    and may change the board in place: the changed board is the second component;
  \<^item> \<open>json_loads\<close>: \<^verbatim>\<open>json.loads\<close>, which returns the decoded value, raises
    \<^verbatim>\<open>JSONDecodeError\<close>, or raises an exception of another class (\<^verbatim>\<open>RecursionError\<close>
    on deep nesting, \<^verbatim>\<open>ValueError\<close> on an over-long integer);
  \<^item> \<open>py_repr\<close>: what \<^verbatim>\<open>str()\<close> prints for a value that is not a string.
\<close>

datatype loads_result = Decoded json | DecodeError | OtherError

record ('b, 'm) env =
  new_board :: 'b
  new_move :: "string \<Rightarrow> 'm option"
  move_uci :: "'m \<Rightarrow> string"
  board_turn :: "'b \<Rightarrow> string"
  board_result :: "'b \<Rightarrow> string option"
  board_fen :: "'b \<Rightarrow> string"
  board_king_pos :: "'b \<Rightarrow> string \<Rightarrow> (int \<times> int) option"
  board_is_square_attacked_by :: "'b \<Rightarrow> int \<Rightarrow> int \<Rightarrow> string \<Rightarrow> bool"
  board_enemy :: "'b \<Rightarrow> string \<Rightarrow> string"
  board_make_move :: "'b \<Rightarrow> 'm \<Rightarrow> (bool \<times> string) \<times> 'b"
  json_loads :: "string \<Rightarrow> loads_result"
  py_repr :: "json \<Rightarrow> string"

text \<open>\<^verbatim>\<open>str(x)\<close>: a string is itself, anything else is printed.\<close>

definition py_str :: "('b, 'm) env \<Rightarrow> json \<Rightarrow> string" where
  "py_str env v = (case v of JStr s \<Rightarrow> s | _ \<Rightarrow> py_repr env v)"

text \<open>The truth value of \<^verbatim>\<open>board.result\<close>: \<^verbatim>\<open>None\<close> and the empty string are false.\<close>

fun result_truthy :: "string option \<Rightarrow> bool" where
  "result_truthy None = False"
| "result_truthy (Some s) = (s \<noteq> [])"

section \<open>Server state\<close>

text \<open>
  A \<^verbatim>\<open>ClientHandler\<close> owns a socket. The socket is \<open>Open\<close> (a write succeeds),
  \<open>Broken\<close> (the other end is gone: a write raises) or \<open>Closed\<close> (closed by the
  server: a write raises). \<open>outbox\<close> lists the objects written to the socket so far,
  oldest first.
\<close>

datatype conn_state = Open | Broken | Closed

record ClientHandler =
  name :: "string option"
  in_game :: bool
  game :: "nat option"
  color :: "string option"
  alive :: bool
  conn :: conn_state
  outbox :: "json list"

record 'b Game =
  white :: nat
  black :: nat
  board :: 'b
  ended :: bool

text \<open>
  Objects are shared between threads and compared by identity (\<^verbatim>\<open>client is self.white\<close>),
  so clients and games live in stores indexed by identifiers; \<open>next_game\<close> is the
  identifier of the next \<^verbatim>\<open>Game\<close> object to be constructed. The operations below are
  the functions of the source, each run from its first statement to its last with no
  other thread in between; the section on threads takes the handlers of a game apart
  into atomic steps and interleaves them.
\<close>

record 'b world =
  clients :: "nat \<Rightarrow> ClientHandler"
  games :: "nat \<Rightarrow> 'b Game"
  next_game :: nat
  waiting_queue :: "nat list"

abbreviation upd_client :: "nat \<Rightarrow> (ClientHandler \<Rightarrow> ClientHandler) \<Rightarrow> 'b world \<Rightarrow> 'b world" where
  "upd_client c f w \<equiv> w\<lparr>clients := (clients w)(c := f (clients w c))\<rparr>"

abbreviation upd_game :: "nat \<Rightarrow> ('b Game \<Rightarrow> 'b Game) \<Rightarrow> 'b world \<Rightarrow> 'b world" where
  "upd_game g f w \<equiv> w\<lparr>games := (games w)(g := f (games w g))\<rparr>"

text \<open>
  An operation either completes or raises; in both cases the state it has reached is
  kept, since the writes made before the exception stay.
\<close>

datatype 'w res = Done 'w | Raised 'w

fun state_of :: "'w res \<Rightarrow> 'w" where
  "state_of (Done w) = w"
| "state_of (Raised w) = w"

fun and_then :: "'w res \<Rightarrow> ('w \<Rightarrow> 'w res) \<Rightarrow> 'w res" where
  "and_then (Done w) f = f w"
| "and_then (Raised w) f = Raised w"

subsection \<open>ClientHandler\<close>

definition ClientHandler_init :: ClientHandler where
  "ClientHandler_init =
     \<lparr>name = None, in_game = False, game = None, color = None, alive = True,
      conn = Open, outbox = []\<rparr>"

text \<open>\<^verbatim>\<open>ClientHandler.send\<close>: on a write error the client is marked dead and the error
  is raised again.\<close>

definition client_send :: "nat \<Rightarrow> json \<Rightarrow> 'b world \<Rightarrow> 'b world res" where
  "client_send c obj w =
     (if conn (clients w c) = Open
      then Done (upd_client c (\<lambda>cl. cl\<lparr>outbox := outbox cl @ [obj]\<rparr>) w)
      else Raised (upd_client c (\<lambda>cl. cl\<lparr>alive := False\<rparr>) w))"

definition client_close :: "nat \<Rightarrow> 'b world \<Rightarrow> 'b world" where
  "client_close c w = upd_client c (\<lambda>cl. cl\<lparr>conn := Closed, alive := False\<rparr>) w"

text \<open>The recurring pair \<^verbatim>\<open>self.white.send(obj); self.black.send(obj)\<close> inside one
  \<^verbatim>\<open>try\<close> whose handler is \<^verbatim>\<open>pass\<close>: a failed write to the first client skips the
  second, and the exception is dropped.\<close>

definition send_both :: "nat \<Rightarrow> nat \<Rightarrow> json \<Rightarrow> 'b world \<Rightarrow> 'b world" where
  "send_both a b obj w = state_of (and_then (client_send a obj w) (client_send b obj))"

subsection \<open>Messages the server sends\<close>

abbreviation illegal_msg :: "string \<Rightarrow> json" where
  "illegal_msg reason \<equiv> JObj [(''type'', JStr ''illegal''), (''reason'', JStr reason)]"

abbreviation result_msg :: "string \<Rightarrow> json \<Rightarrow> json" where
  "result_msg outcome winner \<equiv>
     JObj [(''type'', JStr ''result''), (''outcome'', JStr outcome), (''winner'', winner)]"

abbreviation opponent_left_msg :: json where
  "opponent_left_msg \<equiv> JObj [(''type'', JStr ''opponent_left'')]"

abbreviation move_ok_msg :: "string \<Rightarrow> json \<Rightarrow> json" where
  "move_ok_msg uci by_color \<equiv>
     JObj [(''type'', JStr ''move_ok''), (''uci'', JStr uci), (''by'', by_color)]"

abbreviation state_msg :: "string \<Rightarrow> string \<Rightarrow> bool \<Rightarrow> json" where
  "state_msg f t chk \<equiv>
     JObj [(''type'', JStr ''state''), (''fen'', JStr f), (''turn'', JStr t),
           (''check'', JBool chk)]"

abbreviation start_msg :: "string \<Rightarrow> json \<Rightarrow> json" where
  "start_msg col opp \<equiv>
     JObj [(''type'', JStr ''start''), (''color'', JStr col), (''opponent'', opp)]"

abbreviation chat_msg :: "json \<Rightarrow> string \<Rightarrow> json" where
  "chat_msg sender_name txt \<equiv>
     JObj [(''type'', JStr ''chat''), (''from'', sender_name), (''text'', JStr txt)]"

subsection \<open>Game\<close>

text \<open>\<^verbatim>\<open>Game.__init__\<close>: a new game object, and the two clients linked to it, in the
  order of the source's assignments.\<close>

definition Game_init :: "('b, 'm) env \<Rightarrow> nat \<Rightarrow> nat \<Rightarrow> 'b world \<Rightarrow> nat \<times> 'b world" where
  "Game_init env a b w =
     (let g = next_game w;
          w0 = w\<lparr>games := (games w)(g := \<lparr>white = a, black = b, board = new_board env,
                                          ended = False\<rparr>),
                next_game := Suc g\<rparr>;
          w1 = upd_client a (\<lambda>cl. cl\<lparr>in_game := True\<rparr>) w0;
          w2 = upd_client b (\<lambda>cl. cl\<lparr>in_game := True\<rparr>) w1;
          w3 = upd_client a (\<lambda>cl. cl\<lparr>game := Some g\<rparr>) w2;
          w4 = upd_client b (\<lambda>cl. cl\<lparr>game := Some g\<rparr>) w3;
          w5 = upd_client a (\<lambda>cl. cl\<lparr>color := Some ''white''\<rparr>) w4;
          w6 = upd_client b (\<lambda>cl. cl\<lparr>color := Some ''black''\<rparr>) w5
      in (g, w6))"

definition in_check :: "('b, 'm) env \<Rightarrow> 'b \<Rightarrow> string \<Rightarrow> bool" where
  "in_check env b color_char =
     (case board_king_pos env b color_char of
        None \<Rightarrow> False
      | Some kp \<Rightarrow>
          board_is_square_attacked_by env b (fst kp) (snd kp) (board_enemy env b color_char))"

definition state_obj :: "('b, 'm) env \<Rightarrow> 'b \<Rightarrow> json" where
  "state_obj env b =
     state_msg (board_fen env b)
       (if board_turn env b = ''w'' then ''white'' else ''black'')
       (in_check env b (board_turn env b))"

definition send_state :: "('b, 'm) env \<Rightarrow> nat \<Rightarrow> 'b world \<Rightarrow> 'b world" where
  "send_state env g w =
     (let obj = state_obj env (board (games w g))
      in send_both (white (games w g)) (black (games w g)) obj w)"

text \<open>\<^verbatim>\<open>Game.start\<close>, up to the launch of the monitor thread.\<close>

definition Game_start :: "('b, 'm) env \<Rightarrow> nat \<Rightarrow> 'b world \<Rightarrow> 'b world" where
  "Game_start env g w =
     (let wh = white (games w g); bl = black (games w g)
      in state_of
           (and_then
              (and_then
                 (client_send wh (start_msg ''white'' (opt_str (name (clients w bl)))) w)
                 (client_send bl (start_msg ''black'' (opt_str (name (clients w wh))))))
              (\<lambda>w'. Done (send_state env g w'))))"

definition peer :: "'b world \<Rightarrow> nat \<Rightarrow> nat \<Rightarrow> nat" where
  "peer w g c = (if c = white (games w g) then black (games w g) else white (games w g))"

text \<open>\<^verbatim>\<open>_end_game\<close>: the flag is set, then both players are detached, white first.\<close>

definition end_game :: "nat \<Rightarrow> 'b world \<Rightarrow> 'b world" where
  "end_game g w =
     (let w0 = upd_game g (\<lambda>gm. gm\<lparr>ended := True\<rparr>) w;
          detach = (\<lambda>cl. cl\<lparr>in_game := False, game := None, color := None\<rparr>);
          w1 = upd_client (white (games w g)) detach w0
      in upd_client (black (games w g)) detach w1)"

definition handle_disconnect :: "nat \<Rightarrow> nat \<Rightarrow> 'b world \<Rightarrow> 'b world" where
  "handle_disconnect g disconnected_client w =
     (if ended (games w g) then w
      else
        let p = peer w g disconnected_client;
            w1 = state_of
                   (and_then (client_send p opponent_left_msg w)
                      (\<lambda>w'. client_send p
                               (result_msg ''forfeit'' (opt_str (color (clients w' p)))) w'))
        in end_game g w1)"

definition handle_chat :: "('b, 'm) env \<Rightarrow> nat \<Rightarrow> nat \<Rightarrow> json \<Rightarrow> 'b world \<Rightarrow> 'b world res" where
  "handle_chat env g sender msg w =
     (case dict_get msg ''text'' (JStr '''') of
        None \<Rightarrow> Raised w
      | Some t \<Rightarrow>
          let text = py_str env t;
              p = peer w g sender
          in (case client_send p (chat_msg (opt_str (name (clients w sender))) text) w of
                Done w' \<Rightarrow> Done w'
              | Raised w' \<Rightarrow> Done (handle_disconnect g p w')))"

definition handle_resign :: "nat \<Rightarrow> nat \<Rightarrow> 'b world \<Rightarrow> 'b world" where
  "handle_resign g sender w =
     (if ended (games w g) then w
      else
        let p = peer w g sender;
            winner_color = color (clients w p);
            outcome = ''resign'';
            w1 = state_of (client_send sender (result_msg outcome (opt_str winner_color)) w);
            w2 = state_of (client_send p (result_msg outcome (opt_str winner_color)) w1)
        in end_game g w2)"

definition handle_move :: "('b, 'm) env \<Rightarrow> nat \<Rightarrow> nat \<Rightarrow> json \<Rightarrow> 'b world \<Rightarrow> 'b world res" where
  "handle_move env g sender msg w =
     (case dict_get msg ''uci'' JNull of
        None \<Rightarrow> Raised w
      | Some uci \<Rightarrow>
          (case uci of
             JStr u \<Rightarrow>
               let expected_color =
                     (if board_turn env (board (games w g)) = ''w'' then ''white'' else ''black'')
               in if color (clients w sender) \<noteq> Some expected_color
                  then client_send sender (illegal_msg ''not your turn'') w
                  else
                    (case new_move env u of
                       None \<Rightarrow> client_send sender (illegal_msg ''bad uci'') w
                     | Some mv \<Rightarrow>
                         (case board_make_move env (board (games w g)) mv of
                            ((ok, reason), b') \<Rightarrow>
                              let w1 = upd_game g (\<lambda>gm. gm\<lparr>board := b'\<rparr>) w
                              in if \<not> ok then client_send sender (illegal_msg reason) w1
                                 else
                                   let by_color = opt_str (color (clients w1 sender));
                                       w2 = send_both (white (games w1 g)) (black (games w1 g))
                                              (move_ok_msg (move_uci env mv) by_color) w1;
                                       w3 = send_state env g w2;
                                       r = board_result env (board (games w3 g))
                                   in if result_truthy r
                                      then
                                        let winner = (if r = Some ''1-0'' then JStr ''white''
                                                      else if r = Some ''0-1'' then JStr ''black''
                                                      else JNull);
                                            outcome = (if r = Some ''1-0'' then ''checkmate''
                                                       else if r = Some ''0-1'' then ''checkmate''
                                                       else ''stalemate'');
                                            w4 = send_both (white (games w3 g))
                                                   (black (games w3 g))
                                                   (result_msg outcome winner) w3
                                        in Done (end_game g w4)
                                      else Done w3))
           | _ \<Rightarrow> client_send sender (illegal_msg ''bad move format'') w))"

text \<open>\<^verbatim>\<open>process_message\<close>: an exception of a handler is logged and dropped.\<close>

definition process_message :: "('b, 'm) env \<Rightarrow> nat \<Rightarrow> nat \<Rightarrow> json \<Rightarrow> 'b world \<Rightarrow> 'b world" where
  "process_message env g sender msg w =
     (if ended (games w g) then w
      else
        state_of
          (case dict_get msg ''type'' JNull of
             None \<Rightarrow> Raised w
           | Some mtype \<Rightarrow>
               if mtype = JStr ''move'' then handle_move env g sender msg w
               else if mtype = JStr ''chat'' then handle_chat env g sender msg w
               else if mtype = JStr ''resign'' then Done (handle_resign g sender w)
               else if mtype = JStr ''quit'' then Done (handle_disconnect g sender w)
               else client_send sender (illegal_msg ''unknown command'') w))"

text \<open>
  \<^verbatim>\<open>monitor_loop\<close>. Between two polls the thread sleeps; taken alone, nothing changes
  the state meanwhile, so the loop returns at its first poll or polls forever, which is
  the value \<open>None\<close>.
\<close>

partial_function (option) monitor_loop :: "nat \<Rightarrow> 'b world \<Rightarrow> 'b world option" where
  "monitor_loop g w =
     (if \<not> ended (games w g) then
        if \<not> alive (clients w (white (games w g)))
        then Some (handle_disconnect g (white (games w g)) w)
        else if \<not> alive (clients w (black (games w g)))
        then Some (handle_disconnect g (black (games w g)) w)
        else monitor_loop g w
      else Some w)"

subsection \<open>Matchmaking\<close>

text \<open>
  One round of \<^verbatim>\<open>matchmaking_thread\<close>'s endless loop: the thread waits while fewer
  than two clients are queued (the result \<open>None\<close>), then pops the head of the queue
  twice, constructs the game and starts it.
\<close>

definition matchmaking_step :: "('b, 'm) env \<Rightarrow> 'b world \<Rightarrow> 'b world option" where
  "matchmaking_step env w =
     (if length (waiting_queue w) < 2 then None
      else
        let a = hd (waiting_queue w);
            w1 = w\<lparr>waiting_queue := tl (waiting_queue w)\<rparr>;
            b = hd (waiting_queue w1);
            w2 = w1\<lparr>waiting_queue := tl (waiting_queue w1)\<rparr>;
            gw = Game_init env a b w2
        in Some (Game_start env (fst gw) (snd gw)))"

subsection \<open>The per-client thread\<close>

text \<open>
  \<^verbatim>\<open>recv_line\<close>, on what \<^verbatim>\<open>fd.readline()\<close> gives: \<open>Some line\<close>, with \<open>Some []\<close> at
  the end of the stream, or \<open>None\<close> when the read raises. The handler for
  \<^verbatim>\<open>JSONDecodeError\<close> returns the marker; the handler for every other exception, of the
  read or of the decoder, returns \<^verbatim>\<open>None\<close>.
\<close>

definition bad_json_marker :: json where
  "bad_json_marker = JObj [(''__bad_json__'', JBool True)]"

definition recv_line :: "('b, 'm) env \<Rightarrow> string option \<Rightarrow> json" where
  "recv_line env r =
     (case r of
        None \<Rightarrow> JNull
      | Some line \<Rightarrow>
          if line = [] then JNull
          else (case json_loads env (strip line) of
                  Decoded v \<Rightarrow> v
                | DecodeError \<Rightarrow> bad_json_marker
                | OtherError \<Rightarrow> JNull))"

text \<open>How a stretch of \<^verbatim>\<open>client_thread\<close> ends: it goes on to what follows
  (\<open>Continue\<close>), leaves by \<^verbatim>\<open>return\<close> or \<^verbatim>\<open>break\<close> (\<open>Exit\<close>), or raises.\<close>

datatype 'w flow = Continue 'w | Exit 'w | Raise 'w

fun flow_state :: "'w flow \<Rightarrow> 'w" where
  "flow_state (Continue w) = w"
| "flow_state (Exit w) = w"
| "flow_state (Raise w) = w"

text \<open>The names held by the queued sessions (\<^verbatim>\<open>taken\<close>): a session without a name,
  or with an empty one, adds nothing.\<close>

definition taken_names :: "'b world \<Rightarrow> string list" where
  "taken_names w =
     concat (map (\<lambda>c. case name (clients w c) of
                         None \<Rightarrow> []
                       | Some n \<Rightarrow> if n = [] then [] else [n])
                 (waiting_queue w))"

text \<open>The loop \<^verbatim>\<open>while client.name in taken: i += 1; client.name = f"{original}_{i}"\<close>,
  on the counter and the current name.\<close>

function uniq_loop :: "string list \<Rightarrow> string \<Rightarrow> nat \<Rightarrow> string \<Rightarrow> string" where
  "uniq_loop taken original i nm =
     (if nm \<in> set taken
      then uniq_loop taken original (i + 1) (original @ ''_'' @ dec (i + 1))
      else nm)"
  by pat_completeness auto

termination uniq_loop
proof (relation "measure (\<lambda>(taken, original, i, nm).
          2 * (10 ^ sum_list (map length taken) - i) + (if nm \<in> set taken then 1 else 0))")
  show "wf (measure (\<lambda>(taken, original, i, nm).
          2 * (10 ^ sum_list (map length taken) - i) + (if nm \<in> set taken then 1 else (0::nat))))"
    by simp
next
  fix taken :: "string list" and original :: string and i :: nat and nm :: string
  assume held: "nm \<in> set taken"
  have dec_bound: "n < 10 ^ length (dec n)" for n
  proof (induction n rule: dec.induct)
    case (1 n)
    show ?case
    proof (cases "n < 10")
      case True
      then show ?thesis by (simp add: dec.simps [of n])
    next
      case False
      then have "n div 10 < 10 ^ length (dec (n div 10))" using 1 by simp
      then have "n < 10 * 10 ^ length (dec (n div 10))" by linarith
      then show ?thesis using False by (simp add: dec.simps [of n])
    qed
  qed
  let ?B = "sum_list (map length taken)"
  let ?nm = "original @ ''_'' @ dec (i + 1)"
  have step: "?nm \<in> set taken \<Longrightarrow> i + 1 < 10 ^ ?B"
  proof -
    assume m: "?nm \<in> set taken"
    then have "length ?nm \<in> set (map length taken)" by (metis imageI set_map)
    then have "length ?nm \<le> ?B" by (simp add: member_le_sum_list)
    then have "length (dec (i + 1)) \<le> ?B" by simp
    then have "(10::nat) ^ length (dec (i + 1)) \<le> 10 ^ ?B"
      by (simp add: power_increasing)
    then show "i + 1 < 10 ^ ?B" using dec_bound [of "i + 1"] by linarith
  qed
  show "((taken, original, i + 1, ?nm), (taken, original, i, nm))
        \<in> measure (\<lambda>(taken, original, i, nm).
          2 * (10 ^ sum_list (map length taken) - i) + (if nm \<in> set taken then 1 else 0))"
    using held step by (cases "?nm \<in> set taken") auto
qed

declare uniq_loop.simps [simp del]

abbreviation welcome_msg :: "bool \<Rightarrow> json" where
  "welcome_msg ok \<equiv> JObj [(''type'', JStr ''welcome''), (''ok'', JBool ok)]"

abbreviation queued_msg :: "int \<Rightarrow> json" where
  "queued_msg pos \<equiv> JObj [(''type'', JStr ''queued''), (''pos'', JInt pos)]"

text \<open>The three lines that refuse a handshake: an \<^verbatim>\<open>illegal\<close> message, \<^verbatim>\<open>close()\<close>,
  \<^verbatim>\<open>return\<close>.\<close>

definition refuse :: "nat \<Rightarrow> string \<Rightarrow> 'b world \<Rightarrow> 'b world flow" where
  "refuse c reason w =
     (case client_send c (illegal_msg reason) w of
        Raised w' \<Rightarrow> Raise w'
      | Done w' \<Rightarrow> Exit (client_close c w'))"

text \<open>
  \<^verbatim>\<open>client_thread\<close> from the welcome to the \<^verbatim>\<open>queued\<close> reply; \<open>hello\<close> is what
  \<^verbatim>\<open>recv_line\<close> returned for the first line.
\<close>

definition handshake :: "nat \<Rightarrow> json \<Rightarrow> 'b world \<Rightarrow> 'b world flow" where
  "handshake c hello w =
     (case client_send c (welcome_msg True) w of
        Raised w1 \<Rightarrow> Raise w1
      | Done w1 \<Rightarrow>
          if \<not> truthy hello \<or> \<not> is_dict hello \<or>
             dict_get hello ''type'' JNull \<noteq> Some (JStr ''hello'')
          then refuse c ''expected hello'' w1
          else
            (case dict_get hello ''name'' JNull of
               Some (JStr n) \<Rightarrow>
                 if strip n = [] then refuse c ''bad name'' w1
                 else
                   let w2 = upd_client c (\<lambda>cl. cl\<lparr>name := Some (strip n)\<rparr>) w1;
                       original = strip n;
                       taken = taken_names w2;
                       w3 = upd_client c
                              (\<lambda>cl. cl\<lparr>name := Some (uniq_loop taken original 1 original)\<rparr>) w2;
                       w4 = w3\<lparr>waiting_queue := waiting_queue w3 @ [c]\<rparr>;
                       pos = length (waiting_queue w4)
                   in (case client_send c (queued_msg (int pos)) w4 of
                         Raised w5 \<Rightarrow> Raise w5
                       | Done w5 \<Rightarrow> Continue w5)
             | _ \<Rightarrow> refuse c ''bad name'' w1))"

text \<open>\<^verbatim>\<open>waiting_queue.index(client)\<close>, for a client that is in the queue.\<close>

fun index_of :: "nat list \<Rightarrow> nat \<Rightarrow> nat" where
  "index_of [] x = 0"
| "index_of (y # ys) x = (if y = x then 0 else Suc (index_of ys x))"

text \<open>One round of the read loop, on the value \<open>msg\<close> that \<^verbatim>\<open>recv_line\<close> returned.\<close>

definition loop_body :: "('b, 'm) env \<Rightarrow> nat \<Rightarrow> json \<Rightarrow> 'b world \<Rightarrow> 'b world flow" where
  "loop_body env c msg w =
     (if msg = JNull then Exit (upd_client c (\<lambda>cl. cl\<lparr>alive := False\<rparr>) w)
      else if is_dict msg \<and> (case dict_get msg ''__bad_json__'' JNull of
                                 None \<Rightarrow> False | Some v \<Rightarrow> truthy v)
      then (case client_send c (illegal_msg ''bad json'') w of
              Raised w' \<Rightarrow> Raise w'
            | Done w' \<Rightarrow> Continue w')
      else
        (case dict_get msg ''type'' JNull of
           None \<Rightarrow> Raise w
         | Some mtype \<Rightarrow>
             if \<not> in_game (clients w c) then
               if mtype = JStr ''quit''
               then (case client_send c (welcome_msg False) w of
                       Raised w' \<Rightarrow> Raise w'
                     | Done w' \<Rightarrow> Exit (client_close c w'))
               else if mtype = JStr ''chat''
               then (case client_send c
                            (chat_msg (JStr ''server'')
                               ''(lobby) message ignored; waiting for pairing'') w of
                       Raised w' \<Rightarrow> Raise w'
                     | Done w' \<Rightarrow> Continue w')
               else (case client_send c
                            (queued_msg (if c \<in> set (waiting_queue w)
                                         then int (index_of (waiting_queue w) c) + 1
                                         else 0)) w of
                       Raised w' \<Rightarrow> Raise w'
                     | Done w' \<Rightarrow> Continue w')
             else
               (case game (clients w c) of
                  Some g \<Rightarrow> Continue (process_message env g c msg w)
                | None \<Rightarrow>
                    (case client_send c (illegal_msg ''no game yet'') w of
                       Raised w' \<Rightarrow> Raise w'
                     | Done w' \<Rightarrow> Continue w'))))"

text \<open>
  The read loop \<^verbatim>\<open>while client.alive\<close>, on the successive results of
  \<^verbatim>\<open>fd.readline()\<close>; once they are used up the stream is at its end. No other thread
  runs between two rounds.
\<close>

fun client_loop :: "('b, 'm) env \<Rightarrow> nat \<Rightarrow> string option list \<Rightarrow> 'b world \<Rightarrow> 'b world flow" where
  "client_loop env c [] w =
     (if alive (clients w c) then Exit (upd_client c (\<lambda>cl. cl\<lparr>alive := False\<rparr>) w)
      else Exit w)"
| "client_loop env c (r # rs) w =
     (if alive (clients w c)
      then (case loop_body env c (recv_line env r) w of
              Continue w' \<Rightarrow> client_loop env c rs w'
            | Exit w' \<Rightarrow> Exit w'
            | Raise w' \<Rightarrow> Raise w')
      else Exit w)"

text \<open>The \<^verbatim>\<open>finally\<close> block of \<^verbatim>\<open>client_thread\<close>.\<close>

definition cleanup :: "nat \<Rightarrow> 'b world \<Rightarrow> 'b world" where
  "cleanup c w =
     (let w1 = (if c \<in> set (waiting_queue w)
                then w\<lparr>waiting_queue := remove1 c (waiting_queue w)\<rparr> else w);
          w2 = (if in_game (clients w1 c)
                then (case game (clients w1 c) of
                        Some g \<Rightarrow> handle_disconnect g c w1
                      | None \<Rightarrow> w1)
                else w1)
      in client_close c w2)"

definition client_thread :: "('b, 'm) env \<Rightarrow> nat \<Rightarrow> string option list \<Rightarrow> 'b world \<Rightarrow> 'b world" where
  "client_thread env c reads w =
     (let w0 = w\<lparr>clients := (clients w)(c := ClientHandler_init)\<rparr>;
          first = (case reads of [] \<Rightarrow> Some [] | r # rs \<Rightarrow> r);
          body = (case handshake c (recv_line env first) w0 of
                    Continue w1 \<Rightarrow> client_loop env c (tl reads) w1
                  | Exit w1 \<Rightarrow> Exit w1
                  | Raise w1 \<Rightarrow> Raise w1)
      in cleanup c (flow_state body))"

text \<open>A run of handshakes, each by a new session with the value its first line decoded
  to: \<open>None\<close> as soon as one of them is refused or raises.\<close>

fun handshakes :: "(nat \<times> json) list \<Rightarrow> 'b world \<Rightarrow> 'b world option" where
  "handshakes [] w = Some w"
| "handshakes (ch # rest) w =
     (case handshake (fst ch) (snd ch) w of
        Continue w' \<Rightarrow> handshakes rest w'
      | Exit w' \<Rightarrow> None
      | Raise w' \<Rightarrow> None)"

section \<open>Triggers of a game's end\<close>





section \<open>Threads and their interleaving\<close>





















section \<open>A scripted rules engine and a game in progress\<close>

text \<open>
  Modelled from the spec: the rules engine \<^verbatim>\<open>chess_logic\<close> (classes \<^verbatim>\<open>Board\<close> and
  \<^verbatim>\<open>Move\<close>) and the \<^verbatim>\<open>json\<close> decoder are not in the server file. The spec asks of
  the engine a side to move, a position encoding, an operation that applies a move token
  and answers with acceptance or a reason, a terminal-result indicator and a check query,
  and gives a move token as a string of 4 to 5 characters. The stand-in below has that
  shape and no chess in it: a board carries the moves it will accept, in order, each with
  the result the board shows after it; a token is two squares and, when it has a fifth
  character, a promotion piece. It serves to run the server model on concrete inputs.
\<close>

record stub_board =
  sb_turn :: string
  sb_result :: "string option"
  sb_script :: "(string \<times> string option) list"

definition is_square :: "char \<Rightarrow> char \<Rightarrow> bool" where
  "is_square f r = (f \<in> set ''abcdefgh'' \<and> r \<in> set ''12345678'')"

fun stub_move :: "string \<Rightarrow> string option" where
  "stub_move [f1, r1, f2, r2] =
     (if is_square f1 r1 \<and> is_square f2 r2 then Some [f1, r1, f2, r2] else None)"
| "stub_move [f1, r1, f2, r2, p] =
     (if is_square f1 r1 \<and> is_square f2 r2 \<and> p \<in> set ''qrbn''
      then Some [f1, r1, f2, r2, p] else None)"
| "stub_move _ = None"

definition stub_make_move :: "stub_board \<Rightarrow> string \<Rightarrow> (bool \<times> string) \<times> stub_board" where
  "stub_make_move b mv =
     (case sb_script b of
        [] \<Rightarrow> ((False, ''illegal move''), b)
      | (m, r) # rest \<Rightarrow>
          if mv = m
          then ((True, []),
                \<lparr>sb_turn = (if sb_turn b = ''w'' then ''b'' else ''w''),
                 sb_result = r, sb_script = rest\<rparr>)
          else ((False, ''illegal move''), b))"

definition stub_position :: "string \<Rightarrow> (string \<times> string option) list \<Rightarrow> stub_board" where
  "stub_position side script = \<lparr>sb_turn = side, sb_result = None, sb_script = script\<rparr>"

text \<open>The JSON text of a hello message, an object with the keys \<^verbatim>\<open>type\<close> and
  \<^verbatim>\<open>name\<close>, for a name that needs no escape.\<close>

definition dquote :: string where
  "dquote = [CHR 0x22]"

definition hello_line :: "string \<Rightarrow> string" where
  "hello_line nm =
     ''{'' @ dquote @ ''type'' @ dquote @ '': '' @ dquote @ ''hello'' @ dquote @ '', '' @
     dquote @ ''name'' @ dquote @ '': '' @ dquote @ nm @ dquote @ ''}''"

text \<open>A decoder that knows the JSON texts of a table and rejects every other line, but
  for a line that opens more than a thousand lists at once: there it fails with an error
  of another class, as Python's decoder does with \<^verbatim>\<open>RecursionError\<close>.\<close>

definition stub_table :: "(string \<times> json) list" where
  "stub_table =
     [(''null'', JNull), (''true'', JBool True), (''[]'', JArr []), (''{}'', JObj []),
      (hello_line ''  '', JObj [(''type'', JStr ''hello''), (''name'', JStr ''  '')])]"

definition stub_loads :: "string \<Rightarrow> loads_result" where
  "stub_loads s =
     (if 1000 < length (takeWhile (\<lambda>c. c = CHR ''['') s) then OtherError
      else (case map_of stub_table s of
              None \<Rightarrow> DecodeError
            | Some v \<Rightarrow> Decoded v))"

definition stub_env :: "(string \<times> string option) list \<Rightarrow> (stub_board, string) env" where
  "stub_env script =
     \<lparr>new_board = stub_position ''w'' script,
      new_move = stub_move,
      move_uci = (\<lambda>mv. mv),
      board_turn = sb_turn,
      board_result = sb_result,
      board_fen = (\<lambda>b. ''-''),
      board_king_pos = (\<lambda>b col. None),
      board_is_square_attacked_by = (\<lambda>b r c col. False),
      board_enemy = (\<lambda>b col. if col = ''w'' then ''b'' else ''w''),
      board_make_move = stub_make_move,
      json_loads = stub_loads,
      py_repr = (\<lambda>v. ''?'')\<rparr>"

text \<open>Ann (client 0, white) and Bob (client 1, black) in game 0 on board \<open>b\<close>, with
  Ann's socket in state \<open>ca\<close> and Bob's in state \<open>cb\<close>; a player whose socket is not
  open has been marked dead; \<open>e\<close> is the game's \<open>ended\<close> flag; nobody waits.\<close>

definition player :: "string \<Rightarrow> string \<Rightarrow> conn_state \<Rightarrow> ClientHandler" where
  "player nm col cs =
     \<lparr>name = Some nm, in_game = True, game = Some 0, color = Some col, alive = (cs = Open),
      conn = cs, outbox = []\<rparr>"

definition demo_world :: "'b \<Rightarrow> conn_state \<Rightarrow> conn_state \<Rightarrow> bool \<Rightarrow> 'b world" where
  "demo_world b ca cb e =
     \<lparr>clients = (\<lambda>c. ClientHandler_init)
                   (0 := player ''Ann'' ''white'' ca, 1 := player ''Bob'' ''black'' cb),
      games = (\<lambda>g. \<lparr>white = 0, black = 1, board = b, ended = e\<rparr>),
      next_game = 1,
      waiting_queue = []\<rparr>"

text \<open>Sessions \<open>0 .. length names - 1\<close> wait in the queue under the given names, in
  the order of their arrival; there is no game.\<close>

definition waiting :: "string \<Rightarrow> ClientHandler" where
  "waiting nm = ClientHandler_init\<lparr>name := Some nm\<rparr>"

definition lobby_world :: "'b \<Rightarrow> string list \<Rightarrow> 'b world" where
  "lobby_world b names =
     \<lparr>clients = (\<lambda>c. if c < length names then waiting (names ! c) else ClientHandler_init),
      games = (\<lambda>g. \<lparr>white = 0, black = 0, board = b, ended = True\<rparr>),
      next_game = 0,
      waiting_queue = [0 ..< length names]\<rparr>"

section \<open>What a write changes\<close>

lemma games_state_of_send [simp]: "games (state_of (client_send c obj w)) = games w"
  by (simp add: client_send_def)

lemma queue_state_of_send [simp]:
  "waiting_queue (state_of (client_send c obj w)) = waiting_queue w"
  by (simp add: client_send_def)

lemma clients_state_of_send:
  "clients (state_of (client_send c obj w)) =
     (clients w)(c := (if conn (clients w c) = Open
                       then (clients w c)\<lparr>outbox := outbox (clients w c) @ [obj]\<rparr>
                       else (clients w c)\<lparr>alive := False\<rparr>))"
  by (simp add: client_send_def)

lemma outbox_state_of_send:
  "outbox (clients (state_of (client_send c obj w)) c') =
     (if c' = c \<and> conn (clients w c) = Open then outbox (clients w c') @ [obj]
      else outbox (clients w c'))"
  by (simp add: client_send_def)

lemma conn_state_of_send [simp]:
  "conn (clients (state_of (client_send c obj w)) c') = conn (clients w c')"
  by (simp add: client_send_def)

lemma color_state_of_send [simp]:
  "color (clients (state_of (client_send c obj w)) c') = color (clients w c')"
  by (simp add: client_send_def)

lemma outbox_end_game [simp]: "outbox (clients (end_game g w) c) = outbox (clients w c)"
  by (simp add: end_game_def Let_def)

lemma ended_end_game [simp]: "ended (games (end_game g w) g)"
  by (simp add: end_game_def Let_def)

lemma board_end_game [simp]: "board (games (end_game g w) g') = board (games w g')"
  by (simp add: end_game_def Let_def)

lemma send_both_unfold:
  "send_both a b obj w =
     (if conn (clients w a) = Open
      then state_of (client_send b obj (state_of (client_send a obj w)))
      else state_of (client_send a obj w))"
  by (simp add: send_both_def client_send_def)

lemma games_send_both [simp]: "games (send_both a b obj w) = games w"
  by (simp add: send_both_unfold)

lemma conn_send_both [simp]: "conn (clients (send_both a b obj w) c) = conn (clients w c)"
  by (simp add: send_both_unfold)

lemma outbox_send_both:
  "a \<noteq> b \<Longrightarrow> conn (clients w a) = Open \<Longrightarrow> conn (clients w b) = Open \<Longrightarrow>
   outbox (clients (send_both a b obj w) c) =
     (if c = a \<or> c = b then outbox (clients w c) @ [obj] else outbox (clients w c))"
  by (simp add: send_both_unfold outbox_state_of_send)

lemma games_send_state [simp]: "games (send_state env g w) = games w"
  by (simp add: send_state_def Let_def)

lemma conn_send_state [simp]:
  "conn (clients (send_state env g w) c) = conn (clients w c)"
  by (simp add: send_state_def Let_def)

lemma outbox_send_state:
  "white (games w g) \<noteq> black (games w g) \<Longrightarrow>
   conn (clients w (white (games w g))) = Open \<Longrightarrow>
   conn (clients w (black (games w g))) = Open \<Longrightarrow>
   outbox (clients (send_state env g w) c) =
     (if c = white (games w g) \<or> c = black (games w g)
      then outbox (clients w c) @ [state_obj env (board (games w g))]
      else outbox (clients w c))"
  by (simp add: send_state_def Let_def outbox_send_both)

section \<open>The game ends once\<close>

lemma handle_disconnect_ended: "ended (games (handle_disconnect g d w) g)"
  by (cases "ended (games w g)") (simp_all add: handle_disconnect_def Let_def)

lemma handle_resign_ended: "ended (games (handle_resign g s w) g)"
  by (cases "ended (games w g)") (simp_all add: handle_resign_def Let_def)












































section \<open>Forfeit, resignation and moves\<close>

lemma handle_disconnect_unfold:
  "\<not> ended (games w g) \<Longrightarrow>
   handle_disconnect g d w =
     end_game g
       (if conn (clients w (peer w g d)) = Open
        then state_of (client_send (peer w g d)
               (result_msg ''forfeit'' (opt_str (color (clients w (peer w g d)))))
               (state_of (client_send (peer w g d) opponent_left_msg w)))
        else state_of (client_send (peer w g d) opponent_left_msg w))"
  by (simp add: handle_disconnect_def Let_def client_send_def)

lemma handle_disconnect_outbox:
  "\<not> ended (games w g) \<Longrightarrow>
   outbox (clients (handle_disconnect g d w) c) =
           (if c = peer w g d \<and> conn (clients w c) = Open
            then outbox (clients w c) @
                 [opponent_left_msg,
                  result_msg ''forfeit'' (opt_str (color (clients w (peer w g d))))]
            else outbox (clients w c))"
  by (simp add: handle_disconnect_unfold outbox_state_of_send)

lemma monitor_loop_dead:
  assumes "\<not> ended (games w g)"
    and "\<not> alive (clients w d)"
    and "d = white (games w g) \<or> d = black (games w g) \<and> alive (clients w (white (games w g)))"
  shows "monitor_loop g w = Some (handle_disconnect g d w)"
  using assms by (subst monitor_loop.simps) auto

text \<open>
  C4. On a running game whose two players are distinct, the disconnect path for player
  \<open>d\<close> ends the game; the outbox of every client other than the peer of \<open>d\<close> stays as
  it was, and the peer, when its socket is open, receives \<^verbatim>\<open>opponent_left\<close> and then the
  result \<^verbatim>\<open>forfeit\<close> with its own colour as winner. A quit sent in the game by \<open>d\<close> takes
  this path, and so does the monitor at its first poll when \<open>d\<close> is dead (white is looked
  at first).
\<close>

theorem forfeit_to_survivor_only:
  assumes "\<not> ended (games w g)"
    and "white (games w g) \<noteq> black (games w g)"
    and "d = white (games w g) \<or> d = black (games w g)"
  shows "peer w g d \<noteq> d \<and>
     ended (games (handle_disconnect g d w) g) \<and>
     (\<forall>c. outbox (clients (handle_disconnect g d w) c) =
           (if c = peer w g d \<and> conn (clients w c) = Open
            then outbox (clients w c) @
                 [opponent_left_msg,
                  result_msg ''forfeit'' (opt_str (color (clients w (peer w g d))))]
            else outbox (clients w c))) \<and>
     (dict_get msg ''type'' JNull = Some (JStr ''quit'') \<longrightarrow>
           process_message env g d msg w = handle_disconnect g d w) \<and>
     (\<not> alive (clients w d) \<and>
      (d = black (games w g) \<longrightarrow> alive (clients w (white (games w g)))) \<longrightarrow>
           monitor_loop g w = Some (handle_disconnect g d w))"
proof -
  have 1: "peer w g d \<noteq> d" using assms by (auto simp: peer_def)
  have 4: "dict_get msg ''type'' JNull = Some (JStr ''quit'') \<longrightarrow>
           process_message env g d msg w = handle_disconnect g d w"
    using assms(1) by (simp add: process_message_def)
  have 5: "\<not> alive (clients w d) \<and>
      (d = black (games w g) \<longrightarrow> alive (clients w (white (games w g)))) \<longrightarrow>
           monitor_loop g w = Some (handle_disconnect g d w)"
    using assms monitor_loop_dead [of w g d] by blast
  show ?thesis
    using 1 4 5 handle_disconnect_ended [of g d w] handle_disconnect_outbox [OF assms(1), of d]
    by blast
qed

theorem forfeit_to_survivor_only_witness:
  "\<not> ended (games (demo_world (stub_position ''w'' []) Broken Open False) 0) \<and>
   white (games (demo_world (stub_position ''w'' []) Broken Open False) 0) \<noteq>
   black (games (demo_world (stub_position ''w'' []) Broken Open False) 0) \<and>
   \<not> alive (clients (demo_world (stub_position ''w'' []) Broken Open False) 0) \<and>
   ended (games (handle_disconnect 0 0 (demo_world (stub_position ''w'' []) Broken Open False)) 0) \<and>
   outbox (clients (handle_disconnect 0 0
                      (demo_world (stub_position ''w'' []) Broken Open False)) 1) =
     [opponent_left_msg, result_msg ''forfeit'' (JStr ''black'')] \<and>
   outbox (clients (handle_disconnect 0 0
                      (demo_world (stub_position ''w'' []) Broken Open False)) 0) = [] \<and>
   process_message (stub_env []) 0 0 (JObj [(''type'', JStr ''quit'')])
       (demo_world (stub_position ''w'' []) Broken Open False) =
     handle_disconnect 0 0 (demo_world (stub_position ''w'' []) Broken Open False) \<and>
   monitor_loop 0 (demo_world (stub_position ''w'' []) Broken Open False) =
     Some (handle_disconnect 0 0 (demo_world (stub_position ''w'' []) Broken Open False))"
proof -
  let ?w = "demo_world (stub_position ''w'' []) Broken Open False :: stub_board world"
  have h: "\<not> ended (games ?w 0)" "white (games ?w 0) \<noteq> black (games ?w 0)"
    "0 = white (games ?w 0) \<or> 0 = black (games ?w 0)"
    "\<not> alive (clients ?w 0)" "peer ?w 0 0 = 1"
    "conn (clients ?w 1) = Open" "color (clients ?w 1) = Some ''black''"
    "outbox (clients ?w 1) = []" "outbox (clients ?w 0) = []"
    "dict_get (JObj [(''type'', JStr ''quit'')]) ''type'' JNull = Some (JStr ''quit'')"
    "black (games ?w 0) = 1"
    by (simp_all add: demo_world_def player_def peer_def)
  show ?thesis
    using forfeit_to_survivor_only [OF h(1-3), of "JObj [(''type'', JStr ''quit'')]" "stub_env []"]
      h
    by simp
qed

lemma handle_resign_unfold:
  "\<not> ended (games w g) \<Longrightarrow>
   handle_resign g s w =
     end_game g
       (state_of (client_send (peer w g s)
                    (result_msg ''resign'' (opt_str (color (clients w (peer w g s)))))
          (state_of (client_send s
                    (result_msg ''resign'' (opt_str (color (clients w (peer w g s))))) w))))"
  by (simp add: handle_resign_def Let_def)

text \<open>
  C5. A resign message on a running game, from either of its two distinct players, ends
  the game; the sender and its peer, each when its socket is open, receive the result
  \<^verbatim>\<open>resign\<close> whose winner is the colour of the sender's peer, and no other outbox changes.
\<close>

theorem resign_peer_wins:
  assumes "\<not> ended (games w g)"
    and "white (games w g) \<noteq> black (games w g)"
    and "s = white (games w g) \<or> s = black (games w g)"
    and "dict_get msg ''type'' JNull = Some (JStr ''resign'')"
  shows "ended (games (process_message env g s msg w) g) \<and>
         (\<forall>c. outbox (clients (process_message env g s msg w) c) =
           (if (c = s \<or> c = peer w g s) \<and> conn (clients w c) = Open
            then outbox (clients w c) @
                 [result_msg ''resign'' (opt_str (color (clients w (peer w g s))))]
            else outbox (clients w c)))"
proof -
  have pm: "process_message env g s msg w = handle_resign g s w"
    using assms(1,4) by (simp add: process_message_def)
  have ne: "peer w g s \<noteq> s" using assms(2,3) by (auto simp: peer_def)
  show ?thesis
    unfolding pm handle_resign_unfold [OF assms(1)]
    using ne by (auto simp: outbox_state_of_send)
qed

theorem resign_peer_wins_witness:
  "\<not> ended (games (demo_world (stub_position ''w'' []) Open Open False) 0) \<and>
   ended (games (process_message (stub_env []) 0 0 (JObj [(''type'', JStr ''resign'')])
                   (demo_world (stub_position ''w'' []) Open Open False)) 0) \<and>
   outbox (clients (process_message (stub_env []) 0 0 (JObj [(''type'', JStr ''resign'')])
                      (demo_world (stub_position ''w'' []) Open Open False)) 0) =
     [result_msg ''resign'' (JStr ''black'')] \<and>
   outbox (clients (process_message (stub_env []) 0 0 (JObj [(''type'', JStr ''resign'')])
                      (demo_world (stub_position ''w'' []) Open Open False)) 1) =
     [result_msg ''resign'' (JStr ''black'')]"
proof -
  let ?w = "demo_world (stub_position ''w'' []) Open Open False :: stub_board world"
  have h: "\<not> ended (games ?w 0)" "white (games ?w 0) \<noteq> black (games ?w 0)"
    "0 = white (games ?w 0) \<or> 0 = black (games ?w 0)"
    "dict_get (JObj [(''type'', JStr ''resign'')]) ''type'' JNull = Some (JStr ''resign'')"
    "peer ?w 0 0 = 1"
    "conn (clients ?w 1) = Open" "color (clients ?w 1) = Some ''black''"
    "conn (clients ?w 0) = Open"
    "outbox (clients ?w 1) = []" "outbox (clients ?w 0) = []"
    by (simp_all add: demo_world_def player_def peer_def)
  show ?thesis
    using resign_peer_wins [OF h(1-4), of "stub_env []"] h
    by simp
qed

lemma process_move_not_your_turn:
  assumes "\<not> ended (games w g)"
    and "dict_get msg ''type'' JNull = Some (JStr ''move'')"
    and "dict_get msg ''uci'' JNull = Some (JStr u)"
    and "color (clients w s) \<noteq>
           Some (if board_turn env (board (games w g)) = ''w'' then ''white'' else ''black'')"
  shows "process_message env g s msg w =
           state_of (client_send s (illegal_msg ''not your turn'') w)"
  using assms by (simp add: process_message_def handle_move_def Let_def)

text \<open>
  C6. A move message on a running game whose \<^verbatim>\<open>uci\<close> field is a string, from a sender
  whose colour is not the side to move, changes no game (the board and the \<open>ended\<close> flag
  stay), leaves the queue and every other client as they were, and, when the sender's
  socket is open, changes of the sender only the outbox, which gains the one message
  \<^verbatim>\<open>illegal\<close> with reason \<^verbatim>\<open>not your turn\<close>.
\<close>

theorem not_your_turn_frame:
  assumes "\<not> ended (games w g)"
    and "dict_get msg ''type'' JNull = Some (JStr ''move'')"
    and "dict_get msg ''uci'' JNull = Some (JStr u)"
    and "color (clients w s) \<noteq>
           Some (if board_turn env (board (games w g)) = ''w'' then ''white'' else ''black'')"
  shows "games (process_message env g s msg w) = games w \<and>
     waiting_queue (process_message env g s msg w) = waiting_queue w \<and>
     (\<forall>c. c \<noteq> s \<longrightarrow> clients (process_message env g s msg w) c = clients w c) \<and>
     (conn (clients w s) = Open \<longrightarrow>
           clients (process_message env g s msg w) s =
             (clients w s)\<lparr>outbox := outbox (clients w s) @ [illegal_msg ''not your turn'']\<rparr>) \<and>
     (conn (clients w s) \<noteq> Open \<longrightarrow>
           outbox (clients (process_message env g s msg w) s) = outbox (clients w s))"
  unfolding process_move_not_your_turn [OF assms]
  by (simp add: clients_state_of_send)

theorem not_your_turn_frame_witness:
  "\<not> ended (games (demo_world (stub_position ''w'' []) Open Open False) 0) \<and>
   color (clients (demo_world (stub_position ''w'' []) Open Open False) 1) \<noteq> Some ''white'' \<and>
   games (process_message (stub_env []) 0 1
            (JObj [(''type'', JStr ''move''), (''uci'', JStr ''e7e5'')])
            (demo_world (stub_position ''w'' []) Open Open False)) =
     games (demo_world (stub_position ''w'' []) Open Open False) \<and>
   outbox (clients (process_message (stub_env []) 0 1
            (JObj [(''type'', JStr ''move''), (''uci'', JStr ''e7e5'')])
            (demo_world (stub_position ''w'' []) Open Open False)) 1) =
     [illegal_msg ''not your turn''] \<and>
   outbox (clients (process_message (stub_env []) 0 1
            (JObj [(''type'', JStr ''move''), (''uci'', JStr ''e7e5'')])
            (demo_world (stub_position ''w'' []) Open Open False)) 0) = []"
proof -
  let ?w = "demo_world (stub_position ''w'' []) Open Open False :: stub_board world"
  let ?msg = "JObj [(''type'', JStr ''move''), (''uci'', JStr ''e7e5'')]"
  have h: "\<not> ended (games ?w 0)"
    "dict_get ?msg ''type'' JNull = Some (JStr ''move'')"
    "dict_get ?msg ''uci'' JNull = Some (JStr ''e7e5'')"
    "color (clients ?w 1) \<noteq>
       Some (if board_turn (stub_env []) (board (games ?w 0)) = ''w'' then ''white'' else ''black'')"
    "color (clients ?w 1) \<noteq> Some ''white''"
    "conn (clients ?w 1) = Open" "outbox (clients ?w 1) = []" "outbox (clients ?w 0) = []"
    by (simp_all add: demo_world_def player_def stub_env_def stub_position_def)
  show ?thesis
    using not_your_turn_frame [OF h(1-4)] h by simp
qed

lemma process_move_accepted:
  assumes "\<not> ended (games w g)"
    and "dict_get msg ''type'' JNull = Some (JStr ''move'')"
    and "dict_get msg ''uci'' JNull = Some (JStr u)"
    and "color (clients w s) =
           Some (if board_turn env (board (games w g)) = ''w'' then ''white'' else ''black'')"
    and "new_move env u = Some mv"
    and "board_make_move env (board (games w g)) mv = ((True, reason), b')"
  shows "process_message env g s msg w =
     (let wh = white (games w g); bl = black (games w g);
          w3 = send_state env g
                 (send_both wh bl (move_ok_msg (move_uci env mv) (opt_str (color (clients w s))))
                    (upd_game g (\<lambda>gm. gm\<lparr>board := b'\<rparr>) w));
          r = board_result env b'
      in if result_truthy r
         then end_game g
                (send_both wh bl
                   (result_msg (if r = Some ''1-0'' then ''checkmate''
                                else if r = Some ''0-1'' then ''checkmate'' else ''stalemate'')
                      (if r = Some ''1-0'' then JStr ''white''
                       else if r = Some ''0-1'' then JStr ''black'' else JNull)) w3)
         else w3)"
  using assms
  by (simp add: process_message_def handle_move_def Let_def)

text \<open>
  An accepted move when both sockets are open. Take a move message on a running game,
  from the side to move, whose token the engine parses and whose move the engine accepts,
  leaving board \<open>b'\<close>. Then the game holds \<open>b'\<close>, and it is ended exactly when the
  result of \<open>b'\<close> is true as a Python value. When both players' sockets are open, each
  of them receives \<^verbatim>\<open>move_ok\<close>, the new state and then: nothing more when there is no
  result; \<^verbatim>\<open>checkmate\<close> with winner \<^verbatim>\<open>white\<close> for \<^verbatim>\<open>1-0\<close>; \<^verbatim>\<open>checkmate\<close> with
  winner \<^verbatim>\<open>black\<close> for \<^verbatim>\<open>0-1\<close>; \<^verbatim>\<open>stalemate\<close> with no winner for any other
  result. No other outbox changes.
\<close>

lemma accepted_move_both_open:
  assumes "\<not> ended (games w g)"
    and "dict_get msg ''type'' JNull = Some (JStr ''move'')"
    and "dict_get msg ''uci'' JNull = Some (JStr u)"
    and "color (clients w s) =
           Some (if board_turn env (board (games w g)) = ''w'' then ''white'' else ''black'')"
    and "new_move env u = Some mv"
    and "board_make_move env (board (games w g)) mv = ((True, reason), b')"
    and "white (games w g) \<noteq> black (games w g)"
  shows "board (games (process_message env g s msg w) g) = b' \<and>
     ended (games (process_message env g s msg w) g) = result_truthy (board_result env b') \<and>
     (conn (clients w (white (games w g))) = Open \<and>
      conn (clients w (black (games w g))) = Open \<longrightarrow>
      (\<forall>c. outbox (clients (process_message env g s msg w) c) =
         (if c = white (games w g) \<or> c = black (games w g)
          then outbox (clients w c) @
               [move_ok_msg (move_uci env mv) (opt_str (color (clients w s))),
                state_obj env b'] @
               (if \<not> result_truthy (board_result env b') then []
                else if board_result env b' = Some ''1-0''
                  then [result_msg ''checkmate'' (JStr ''white'')]
                else if board_result env b' = Some ''0-1''
                  then [result_msg ''checkmate'' (JStr ''black'')]
                else [result_msg ''stalemate'' JNull])
          else outbox (clients w c))))"
proof -
  note pm = process_move_accepted [OF assms(1-6)]
  have a: "board (games (process_message env g s msg w) g) = b'"
    unfolding pm by (simp add: Let_def)
  have b: "ended (games (process_message env g s msg w) g) = result_truthy (board_result env b')"
    unfolding pm using assms(1) by (simp add: Let_def)
  have c: "outbox (clients (process_message env g s msg w) c) =
         (if c = white (games w g) \<or> c = black (games w g)
          then outbox (clients w c) @
               [move_ok_msg (move_uci env mv) (opt_str (color (clients w s))),
                state_obj env b'] @
               (if \<not> result_truthy (board_result env b') then []
                else if board_result env b' = Some ''1-0''
                  then [result_msg ''checkmate'' (JStr ''white'')]
                else if board_result env b' = Some ''0-1''
                  then [result_msg ''checkmate'' (JStr ''black'')]
                else [result_msg ''stalemate'' JNull])
          else outbox (clients w c))"
    if "conn (clients w (white (games w g))) = Open"
      and "conn (clients w (black (games w g))) = Open" for c
    unfolding pm using that assms(7)
    by (simp add: Let_def outbox_send_both outbox_send_state)
  show ?thesis using a b c by blast
qed

lemma accepted_move_white_broken:
  assumes "\<not> ended (games w g)"
    and "dict_get msg ''type'' JNull = Some (JStr ''move'')"
    and "dict_get msg ''uci'' JNull = Some (JStr u)"
    and "color (clients w s) =
           Some (if board_turn env (board (games w g)) = ''w'' then ''white'' else ''black'')"
    and "new_move env u = Some mv"
    and "board_make_move env (board (games w g)) mv = ((True, reason), b')"
    and "conn (clients w (white (games w g))) \<noteq> Open"
  shows "ended (games (process_message env g s msg w) g) = result_truthy (board_result env b') \<and>
         (\<forall>c. outbox (clients (process_message env g s msg w) c) = outbox (clients w c))"
proof -
  note pm = process_move_accepted [OF assms(1-6)]
  have b: "ended (games (process_message env g s msg w) g) = result_truthy (board_result env b')"
    unfolding pm using assms(1) by (simp add: Let_def)
  have c: "outbox (clients (process_message env g s msg w) c) = outbox (clients w c)" for c
    unfolding pm using assms(7)
    by (simp add: Let_def send_state_def send_both_unfold outbox_state_of_send)
  show ?thesis using b c by blast
qed

text \<open>
  C7. After an accepted move with a terminal result the game is ended, and the result
  message, \<^verbatim>\<open>checkmate\<close> with winner \<^verbatim>\<open>black\<close> for \<^verbatim>\<open>0-1\<close>, is meant for both players.
  The code does not deliver it in the run below. Ann, white, has a broken socket; Bob,
  black and to move, has an open one and plays the move that the engine accepts with
  result \<^verbatim>\<open>0-1\<close>. The game is ended, and Bob is sent nothing: no \<^verbatim>\<open>move_ok\<close>, no
  state and no result, since each pair of writes sits in one \<^verbatim>\<open>try\<close> and the failed
  write to white skips the write to black.
\<close>

theorem terminal_result_skips_black:
  "conn (clients (demo_world (stub_position ''b'' [(''e7e5'', Some ''0-1'')]) Broken Open False) 1)
     = Open \<and>
   board_make_move (stub_env []) (stub_position ''b'' [(''e7e5'', Some ''0-1'')]) ''e7e5'' =
     ((True, []), \<lparr>sb_turn = ''w'', sb_result = Some ''0-1'', sb_script = []\<rparr>) \<and>
   ended (games (process_message (stub_env []) 0 1
            (JObj [(''type'', JStr ''move''), (''uci'', JStr ''e7e5'')])
            (demo_world (stub_position ''b'' [(''e7e5'', Some ''0-1'')]) Broken Open False)) 0) \<and>
   board (games (process_message (stub_env []) 0 1
            (JObj [(''type'', JStr ''move''), (''uci'', JStr ''e7e5'')])
            (demo_world (stub_position ''b'' [(''e7e5'', Some ''0-1'')]) Broken Open False)) 0) =
     \<lparr>sb_turn = ''w'', sb_result = Some ''0-1'', sb_script = []\<rparr> \<and>
   outbox (clients (process_message (stub_env []) 0 1
            (JObj [(''type'', JStr ''move''), (''uci'', JStr ''e7e5'')])
            (demo_world (stub_position ''b'' [(''e7e5'', Some ''0-1'')]) Broken Open False)) 1) =
     [] \<and>
   outbox (clients (process_message (stub_env []) 0 1
            (JObj [(''type'', JStr ''move''), (''uci'', JStr ''e7e5'')])
            (demo_world (stub_position ''b'' [(''e7e5'', Some ''0-1'')]) Broken Open False)) 1) \<noteq>
     [move_ok_msg ''e7e5'' (JStr ''black''), state_msg ''-'' ''white'' False,
      result_msg ''checkmate'' (JStr ''black'')]"
proof -
  let ?w = "demo_world (stub_position ''b'' [(''e7e5'', Some ''0-1'')]) Broken Open False
              :: stub_board world"
  let ?msg = "JObj [(''type'', JStr ''move''), (''uci'', JStr ''e7e5'')]"
  let ?b' = "\<lparr>sb_turn = ''w'', sb_result = Some ''0-1'', sb_script = []\<rparr>"
  have h: "\<not> ended (games ?w 0)"
    "dict_get ?msg ''type'' JNull = Some (JStr ''move'')"
    "dict_get ?msg ''uci'' JNull = Some (JStr ''e7e5'')"
    "color (clients ?w 1) =
       Some (if board_turn (stub_env []) (board (games ?w 0)) = ''w'' then ''white'' else ''black'')"
    "new_move (stub_env []) ''e7e5'' = Some ''e7e5''"
    "board_make_move (stub_env []) (board (games ?w 0)) ''e7e5'' = ((True, []), ?b')"
    "conn (clients ?w (white (games ?w 0))) \<noteq> Open"
    by (simp_all add: demo_world_def player_def stub_env_def stub_position_def
          stub_make_move_def is_square_def)
  have k: "conn (clients ?w 1) = Open" "outbox (clients ?w 1) = []"
    "board_result (stub_env []) ?b' = Some ''0-1''"
    "board_make_move (stub_env []) (stub_position ''b'' [(''e7e5'', Some ''0-1'')]) ''e7e5'' =
     ((True, []), ?b')"
    by (simp_all add: demo_world_def player_def stub_env_def stub_position_def
          stub_make_move_def)
  have bd: "board (games (process_message (stub_env []) 0 1 ?msg ?w) 0) = ?b'"
    unfolding process_move_accepted [OF h(1-6)] by (simp add: Let_def)
  show ?thesis
    using accepted_move_white_broken [OF h] bd k by simp
qed

lemma process_move_not_str:
  assumes "\<not> ended (games w g)"
    and "dict_get msg ''type'' JNull = Some (JStr ''move'')"
    and "dict_get msg ''uci'' JNull = Some v"
    and "\<not> is_str v"
  shows "process_message env g s msg w =
           state_of (client_send s (illegal_msg ''bad move format'') w)"
  using assms by (cases v) (simp_all add: process_message_def handle_move_def Let_def)

lemma process_move_bad_uci:
  assumes "\<not> ended (games w g)"
    and "dict_get msg ''type'' JNull = Some (JStr ''move'')"
    and "dict_get msg ''uci'' JNull = Some (JStr u)"
    and "color (clients w s) =
           Some (if board_turn env (board (games w g)) = ''w'' then ''white'' else ''black'')"
    and "new_move env u = None"
  shows "process_message env g s msg w =
           state_of (client_send s (illegal_msg ''bad uci'') w)"
  using assms by (simp add: process_message_def handle_move_def Let_def)

text \<open>
  C2, as the code has it. On a running game, a move message whose \<^verbatim>\<open>uci\<close> field is
  absent or is not a string is answered with \<^verbatim>\<open>illegal\<close>, reason \<^verbatim>\<open>bad move format\<close>;
  one whose \<^verbatim>\<open>uci\<close> field is a string that the engine's \<^verbatim>\<open>Move\<close> does not parse, sent
  by the side to move, is answered with \<^verbatim>\<open>illegal\<close>, reason \<^verbatim>\<open>bad uci\<close>. In both cases
  no game changes (the board stays, the game goes on), the queue and every other client
  stay as they were, and the sender, when its socket is open, gains that one message in
  its outbox and changes in nothing else.
\<close>

theorem bad_move_format_reply:
  assumes "\<not> ended (games w g)"
    and "dict_get msg ''type'' JNull = Some (JStr ''move'')"
    and "dict_get msg ''uci'' JNull = Some v"
    and "\<not> is_str v \<and> reason = ''bad move format'' \<or>
         (\<exists>u. v = JStr u \<and> new_move env u = None \<and> reason = ''bad uci'' \<and>
              color (clients w s) =
                Some (if board_turn env (board (games w g)) = ''w'' then ''white''
                      else ''black''))"
  shows "games (process_message env g s msg w) = games w \<and>
     waiting_queue (process_message env g s msg w) = waiting_queue w \<and>
     (\<forall>c. c \<noteq> s \<longrightarrow> clients (process_message env g s msg w) c = clients w c) \<and>
     (conn (clients w s) = Open \<longrightarrow>
           clients (process_message env g s msg w) s =
             (clients w s)\<lparr>outbox := outbox (clients w s) @ [illegal_msg reason]\<rparr>) \<and>
     (conn (clients w s) \<noteq> Open \<longrightarrow>
           outbox (clients (process_message env g s msg w) s) = outbox (clients w s))"
proof -
  have "process_message env g s msg w = state_of (client_send s (illegal_msg reason) w)"
    using assms(4) process_move_not_str [OF assms(1-3)] process_move_bad_uci [OF assms(1,2)]
      assms(3)
    by blast
  then show ?thesis by (simp add: clients_state_of_send)
qed

theorem bad_move_format_reply_witness:
  "\<not> ended (games (demo_world (stub_position ''b'' []) Open Open False) 0) \<and>
   \<not> is_str (JInt 7) \<and>
   outbox (clients (process_message (stub_env []) 0 1
            (JObj [(''type'', JStr ''move''), (''uci'', JInt 7)])
            (demo_world (stub_position ''b'' []) Open Open False)) 1) =
     [illegal_msg ''bad move format''] \<and>
   outbox (clients (process_message (stub_env []) 0 1
            (JObj [(''type'', JStr ''move'')])
            (demo_world (stub_position ''b'' []) Open Open False)) 1) =
     [illegal_msg ''bad move format''] \<and>
   new_move (stub_env []) ''e7e5x'' = None \<and>
   outbox (clients (process_message (stub_env []) 0 1
            (JObj [(''type'', JStr ''move''), (''uci'', JStr ''e7e5x'')])
            (demo_world (stub_position ''b'' []) Open Open False)) 1) =
     [illegal_msg ''bad uci''] \<and>
   games (process_message (stub_env []) 0 1
            (JObj [(''type'', JStr ''move''), (''uci'', JInt 7)])
            (demo_world (stub_position ''b'' []) Open Open False)) =
     games (demo_world (stub_position ''b'' []) Open Open False)"
proof -
  let ?w = "demo_world (stub_position ''b'' []) Open Open False :: stub_board world"
  let ?m1 = "JObj [(''type'', JStr ''move''), (''uci'', JInt 7)]"
  let ?m2 = "JObj [(''type'', JStr ''move'')]"
  let ?m3 = "JObj [(''type'', JStr ''move''), (''uci'', JStr ''e7e5x'')]"
  have h: "\<not> ended (games ?w 0)"
    "dict_get ?m1 ''type'' JNull = Some (JStr ''move'')"
    "dict_get ?m1 ''uci'' JNull = Some (JInt 7)"
    "dict_get ?m2 ''type'' JNull = Some (JStr ''move'')"
    "dict_get ?m2 ''uci'' JNull = Some JNull"
    "dict_get ?m3 ''type'' JNull = Some (JStr ''move'')"
    "dict_get ?m3 ''uci'' JNull = Some (JStr ''e7e5x'')"
    by (simp_all add: demo_world_def)
  have n: "new_move (stub_env []) ''e7e5x'' = None"
    by (simp add: stub_env_def)
  have c: "color (clients ?w 1) =
       Some (if board_turn (stub_env []) (board (games ?w 0)) = ''w'' then ''white'' else ''black'')"
    by (simp add: demo_world_def player_def stub_env_def stub_position_def)
  have k: "conn (clients ?w 1) = Open" "outbox (clients ?w 1) = []"
    by (simp_all add: demo_world_def player_def)
  have g1: "\<not> is_str (JInt 7) \<and> ''bad move format'' = ''bad move format'' \<or>
         (\<exists>u. JInt 7 = JStr u \<and> new_move (stub_env []) u = None \<and>
              ''bad move format'' = ''bad uci'' \<and>
              color (clients ?w 1) =
                Some (if board_turn (stub_env []) (board (games ?w 0)) = ''w'' then ''white''
                      else ''black''))"
    by simp
  have g2: "\<not> is_str JNull \<and> ''bad move format'' = ''bad move format'' \<or>
         (\<exists>u. JNull = JStr u \<and> new_move (stub_env []) u = None \<and>
              ''bad move format'' = ''bad uci'' \<and>
              color (clients ?w 1) =
                Some (if board_turn (stub_env []) (board (games ?w 0)) = ''w'' then ''white''
                      else ''black''))"
    by simp
  have g3: "\<not> is_str (JStr ''e7e5x'') \<and> ''bad uci'' = ''bad move format'' \<or>
         (\<exists>u. JStr ''e7e5x'' = JStr u \<and> new_move (stub_env []) u = None \<and>
              ''bad uci'' = ''bad uci'' \<and>
              color (clients ?w 1) =
                Some (if board_turn (stub_env []) (board (games ?w 0)) = ''w'' then ''white''
                      else ''black''))"
    using n c by simp
  show ?thesis
    using bad_move_format_reply [OF h(1) h(2) h(3) g1]
      bad_move_format_reply [OF h(1) h(4) h(5) g2]
      bad_move_format_reply [OF h(1) h(6) h(7) g3] h(1) n k
    by simp
qed

text \<open>
  C2 as the spec words it fails: Bob, black and to move, sends the token \<^verbatim>\<open>e7e5x\<close>,
  which the engine does not parse; the reason he is given is \<^verbatim>\<open>bad uci\<close>, not
  \<^verbatim>\<open>bad move format\<close>.
\<close>

theorem bad_move_format_counterexample:
  "new_move (stub_env []) ''e7e5x'' = None \<and>
   outbox (clients (process_message (stub_env []) 0 1
            (JObj [(''type'', JStr ''move''), (''uci'', JStr ''e7e5x'')])
            (demo_world (stub_position ''b'' []) Open Open False)) 1) =
     [illegal_msg ''bad uci''] \<and>
   outbox (clients (process_message (stub_env []) 0 1
            (JObj [(''type'', JStr ''move''), (''uci'', JStr ''e7e5x'')])
            (demo_world (stub_position ''b'' []) Open Open False)) 1) \<noteq>
     [illegal_msg ''bad move format'']"
  by (simp add: process_message_def handle_move_def client_send_def demo_world_def
        player_def stub_env_def stub_position_def)

section \<open>Matchmaking\<close>

lemma handshake_Continue:
  assumes "handshake c hello w = Continue w'"
  shows "waiting_queue w' = waiting_queue w @ [c] \<and> next_game w' = next_game w \<and>
         games w' = games w"
  using assms
  by (auto simp: handshake_def refuse_def client_send_def Let_def
           split: if_splits option.splits json.splits)

lemma handshakes_queue:
  "handshakes hs w = Some w1 \<Longrightarrow>
   waiting_queue w1 = waiting_queue w @ map fst hs \<and> next_game w1 = next_game w"
proof (induction hs arbitrary: w)
  case Nil
  then show ?case by simp
next
  case (Cons ch hs)
  from Cons.prems obtain w' where
    c: "handshake (fst ch) (snd ch) w = Continue w'" and r: "handshakes hs w' = Some w1"
    by (auto split: flow.splits)
  show ?case
    using handshake_Continue [OF c] Cons.IH [OF r] by simp
qed

lemma games_Game_start [simp]: "games (Game_start env g w) = games w"
  by (simp add: Game_start_def Let_def client_send_def)

lemma queue_Game_start [simp]: "waiting_queue (Game_start env g w) = waiting_queue w"
  by (simp add: Game_start_def Let_def client_send_def send_state_def send_both_def)

lemma next_game_Game_start [simp]: "next_game (Game_start env g w) = next_game w"
  by (simp add: Game_start_def Let_def client_send_def send_state_def send_both_def)

lemma color_Game_start [simp]:
  "color (clients (Game_start env g w) c) = color (clients w c)"
  by (simp add: Game_start_def Let_def client_send_def send_state_def send_both_def)

lemma game_Game_start [simp]:
  "game (clients (Game_start env g w) c) = game (clients w c)"
  by (simp add: Game_start_def Let_def client_send_def send_state_def send_both_def)

lemma matchmaking_step_pair:
  assumes "waiting_queue w = a # b # rest"
  shows "\<exists>w'. matchmaking_step env w = Some w' \<and> waiting_queue w' = rest \<and>
           next_game w' = Suc (next_game w) \<and>
           white (games w' (next_game w)) = a \<and> black (games w' (next_game w)) = b \<and>
           \<not> ended (games w' (next_game w)) \<and>
           (\<forall>g. g \<noteq> next_game w \<longrightarrow> games w' g = games w g) \<and>
           (a \<noteq> b \<longrightarrow>
              color (clients w' a) = Some ''white'' \<and> color (clients w' b) = Some ''black'' \<and>
              game (clients w' a) = Some (next_game w) \<and>
              game (clients w' b) = Some (next_game w))"
  using assms by (simp add: matchmaking_step_def Game_init_def Let_def)

text \<open>
  C3. The pairing step waits while fewer than two sessions are queued. On a queue
  \<open>a # b # rest\<close> it returns with the queue \<open>rest\<close> and one new game, in which \<open>a\<close>,
  the oldest entry, is white and \<open>b\<close>, the next, is black; no other game changes. After
  any run of two or more successful handshakes into an empty queue, the step pairs the
  first two sessions of the run, in that order, and leaves the others queued in the order
  of their arrival.
\<close>

theorem fifo_pairing:
  "(length (waiting_queue w) < 2 \<longrightarrow> matchmaking_step env w = None) \<and>
   (\<forall>a b rest. waiting_queue w = a # b # rest \<longrightarrow>
      (\<exists>w'. matchmaking_step env w = Some w' \<and> waiting_queue w' = rest \<and>
           next_game w' = Suc (next_game w) \<and>
           white (games w' (next_game w)) = a \<and> black (games w' (next_game w)) = b \<and>
           \<not> ended (games w' (next_game w)) \<and>
           (\<forall>g. g \<noteq> next_game w \<longrightarrow> games w' g = games w g) \<and>
           (a \<noteq> b \<longrightarrow>
              color (clients w' a) = Some ''white'' \<and> color (clients w' b) = Some ''black'' \<and>
              game (clients w' a) = Some (next_game w) \<and>
              game (clients w' b) = Some (next_game w)))) \<and>
   (\<forall>hs w1. waiting_queue w = [] \<and> handshakes hs w = Some w1 \<and> 2 \<le> length hs \<longrightarrow>
      (\<exists>w'. matchmaking_step env w1 = Some w' \<and>
           white (games w' (next_game w)) = fst (hs ! 0) \<and>
           black (games w' (next_game w)) = fst (hs ! 1) \<and>
           waiting_queue w' = map fst (drop 2 hs)))"
proof (intro conjI allI impI)
  assume "length (waiting_queue w) < 2"
  then show "matchmaking_step env w = None" by (simp add: matchmaking_step_def)
next
  fix a b rest
  assume "waiting_queue w = a # b # rest"
  then show "\<exists>w'. matchmaking_step env w = Some w' \<and> waiting_queue w' = rest \<and>
           next_game w' = Suc (next_game w) \<and>
           white (games w' (next_game w)) = a \<and> black (games w' (next_game w)) = b \<and>
           \<not> ended (games w' (next_game w)) \<and>
           (\<forall>g. g \<noteq> next_game w \<longrightarrow> games w' g = games w g) \<and>
           (a \<noteq> b \<longrightarrow>
              color (clients w' a) = Some ''white'' \<and> color (clients w' b) = Some ''black'' \<and>
              game (clients w' a) = Some (next_game w) \<and>
              game (clients w' b) = Some (next_game w))"
    by (rule matchmaking_step_pair)
next
  fix hs :: "(nat \<times> json) list" and w1
  assume h: "waiting_queue w = [] \<and> handshakes hs w = Some w1 \<and> 2 \<le> length hs"
  then obtain x y rest where hs: "hs = x # y # rest"
    by (cases hs; cases "tl hs") auto
  have q: "waiting_queue w1 = fst x # fst y # map fst rest" "next_game w1 = next_game w"
    using handshakes_queue [of hs w w1] h hs by simp_all
  show "\<exists>w'. matchmaking_step env w1 = Some w' \<and>
           white (games w' (next_game w)) = fst (hs ! 0) \<and>
           black (games w' (next_game w)) = fst (hs ! 1) \<and>
           waiting_queue w' = map fst (drop 2 hs)"
    using matchmaking_step_pair [OF q(1), of env] q(2) hs by auto
qed

theorem fifo_pairing_witness:
  "length (waiting_queue (lobby_world (stub_position ''w'' []) [''Ann''])) < 2 \<and>
   matchmaking_step (stub_env []) (lobby_world (stub_position ''w'' []) [''Ann'']) = None \<and>
   waiting_queue (lobby_world (stub_position ''w'' []) [''Ann'', ''Bob'', ''Cyd'']) = [0, 1, 2] \<and>
   (\<exists>w'. matchmaking_step (stub_env [])
            (lobby_world (stub_position ''w'' []) [''Ann'', ''Bob'', ''Cyd'']) = Some w' \<and>
         waiting_queue w' = [2] \<and> white (games w' 0) = 0 \<and> black (games w' 0) = 1 \<and>
         color (clients w' 0) = Some ''white'' \<and> color (clients w' 1) = Some ''black'') \<and>
   (\<exists>w1. handshakes
            [(0, JObj [(''type'', JStr ''hello''), (''name'', JStr ''Ann'')]),
             (1, JObj [(''type'', JStr ''hello''), (''name'', JStr ''Bob'')]),
             (2, JObj [(''type'', JStr ''hello''), (''name'', JStr ''Cyd'')])]
            (lobby_world (stub_position ''w'' []) []) = Some w1 \<and>
      (\<exists>w'. matchmaking_step (stub_env []) w1 = Some w' \<and>
         white (games w' 0) = 0 \<and> black (games w' 0) = 1 \<and> waiting_queue w' = [2]))"
proof -
  let ?b = "stub_position ''w'' []"
  let ?hs = "[(0, JObj [(''type'', JStr ''hello''), (''name'', JStr ''Ann'')]),
             (1, JObj [(''type'', JStr ''hello''), (''name'', JStr ''Bob'')]),
             (2, JObj [(''type'', JStr ''hello''), (''name'', JStr ''Cyd'')])]"
  have q1: "length (waiting_queue (lobby_world ?b [''Ann''])) < 2"
    by (simp add: lobby_world_def)
  have q3: "waiting_queue (lobby_world ?b [''Ann'', ''Bob'', ''Cyd'']) = [0, 1, 2]"
    "next_game (lobby_world ?b [''Ann'', ''Bob'', ''Cyd'']) = 0"
    by (simp_all add: lobby_world_def upt_rec)
  have q0: "waiting_queue (lobby_world ?b []) = []" "next_game (lobby_world ?b []) = 0"
    by (simp_all add: lobby_world_def)
  have "\<exists>w1. handshakes ?hs (lobby_world ?b []) = Some w1"
    by (simp add: lobby_world_def handshake_def client_send_def ClientHandler_init_def
          strip_def py_isspace_def whitespace_chars_def taken_names_def Let_def
          uniq_loop.simps)
  then obtain w1 where w1: "handshakes ?hs (lobby_world ?b []) = Some w1" by blast
  have l: "2 \<le> length ?hs" by simp
  have a: "matchmaking_step (stub_env []) (lobby_world ?b [''Ann'']) = None"
    using fifo_pairing [of "lobby_world ?b [''Ann'']" "stub_env []"] q1 by blast
  have b: "\<exists>w'. matchmaking_step (stub_env [])
            (lobby_world ?b [''Ann'', ''Bob'', ''Cyd'']) = Some w' \<and>
         waiting_queue w' = [2] \<and> white (games w' 0) = 0 \<and> black (games w' 0) = 1 \<and>
         color (clients w' 0) = Some ''white'' \<and> color (clients w' 1) = Some ''black''"
    using fifo_pairing [of "lobby_world ?b [''Ann'', ''Bob'', ''Cyd'']" "stub_env []"] q3
    by auto
  have c: "\<exists>w'. matchmaking_step (stub_env []) w1 = Some w' \<and>
         white (games w' 0) = 0 \<and> black (games w' 0) = 1 \<and> waiting_queue w' = [2]"
  proof -
    have "\<forall>hs w1. waiting_queue (lobby_world ?b []) = [] \<and>
             handshakes hs (lobby_world ?b []) = Some w1 \<and> 2 \<le> length hs \<longrightarrow>
      (\<exists>w'. matchmaking_step (stub_env []) w1 = Some w' \<and>
           white (games w' (next_game (lobby_world ?b []))) = fst (hs ! 0) \<and>
           black (games w' (next_game (lobby_world ?b []))) = fst (hs ! 1) \<and>
           waiting_queue w' = map fst (drop 2 hs))"
      using fifo_pairing [of "lobby_world ?b []" "stub_env []"] by blast
    from this [rule_format, of ?hs w1] q0 w1 l show ?thesis by simp
  qed
  show ?thesis using q1 q3(1) a b c w1 by blast
qed

section \<open>The handshake\<close>

lemma uniq_loop_fresh: "uniq_loop taken original i nm \<notin> set taken"
  by (induction taken original i nm rule: uniq_loop.induct)
     (simp add: uniq_loop.simps)

lemma uniq_loop_keep: "nm \<notin> set taken \<Longrightarrow> uniq_loop taken original i nm = nm"
  by (simp add: uniq_loop.simps)

lemma uniq_loop_next:
  "nm \<in> set taken \<Longrightarrow>
   \<exists>k>i. uniq_loop taken original i nm = original @ ''_'' @ dec k \<and>
          (\<forall>j. i < j \<and> j < k \<longrightarrow> original @ ''_'' @ dec j \<in> set taken)"
proof (induction taken original i nm rule: uniq_loop.induct)
  case (1 taken original i nm)
  let ?nm = "original @ ''_'' @ dec (i + 1)"
  have u: "uniq_loop taken original i nm = uniq_loop taken original (i + 1) ?nm"
    using "1.prems" by (subst uniq_loop.simps) simp
  show ?case
  proof (cases "?nm \<in> set taken")
    case False
    then have "uniq_loop taken original (i + 1) ?nm = ?nm" by (rule uniq_loop_keep)
    then have "uniq_loop taken original i nm = original @ ''_'' @ dec (i + 1) \<and>
          (\<forall>j. i < j \<and> j < i + 1 \<longrightarrow> original @ ''_'' @ dec j \<in> set taken)"
      using u by auto
    then show ?thesis by (intro exI [of _ "i + 1"]) simp
  next
    case True
    from "1.IH" [OF "1.prems" True]
    obtain k where k: "k > i + 1"
      "uniq_loop taken original (i + 1) ?nm = original @ ''_'' @ dec k"
      "\<forall>j. i + 1 < j \<and> j < k \<longrightarrow> original @ ''_'' @ dec j \<in> set taken"
      by blast
    have "\<forall>j. i < j \<and> j < k \<longrightarrow> original @ ''_'' @ dec j \<in> set taken"
    proof (intro allI impI)
      fix j assume "i < j \<and> j < k"
      then have "j = i + 1 \<or> (i + 1 < j \<and> j < k)" by linarith
      then show "original @ ''_'' @ dec j \<in> set taken" using True k(3) by blast
    qed
    then show ?thesis using k u by (intro exI [of _ k]) simp
  qed
qed

lemma set_taken_names:
  "nm \<in> set (taken_names w) \<longleftrightarrow>
     nm \<noteq> [] \<and> (\<exists>q\<in>set (waiting_queue w). name (clients w q) = Some nm)"
proof
  assume "nm \<in> set (taken_names w)"
  then show "nm \<noteq> [] \<and> (\<exists>q\<in>set (waiting_queue w). name (clients w q) = Some nm)"
    by (auto simp: taken_names_def split: option.splits if_splits)
next
  assume "nm \<noteq> [] \<and> (\<exists>q\<in>set (waiting_queue w). name (clients w q) = Some nm)"
  then obtain q where "nm \<noteq> []" "q \<in> set (waiting_queue w)" "name (clients w q) = Some nm"
    by blast
  then have "nm \<in> set (case name (clients w q) of None \<Rightarrow> []
                           | Some n \<Rightarrow> if n = [] then [] else [n])"
    by simp
  then show "nm \<in> set (taken_names w)"
    unfolding taken_names_def set_concat set_map using \<open>q \<in> set (waiting_queue w)\<close>
    by blast
qed

lemma taken_names_upd:
  "c \<notin> set (waiting_queue w) \<Longrightarrow>
   taken_names (w\<lparr>clients := (clients w)(c := x)\<rparr>) = taken_names w"
  by (auto simp: taken_names_def intro!: arg_cong [where f = concat])

lemma hello_is_dict:
  "dict_get hello ''type'' JNull = Some (JStr ''hello'') \<Longrightarrow> truthy hello \<and> is_dict hello"
  by (cases hello) auto

lemma handshake_accept:
  assumes "dict_get hello ''type'' JNull = Some (JStr ''hello'')"
    and "dict_get hello ''name'' JNull = Some (JStr n)"
    and "strip n \<noteq> []"
    and "conn (clients w c) = Open"
    and "c \<notin> set (waiting_queue w)"
  shows "handshake c hello w =
     Continue (w\<lparr>waiting_queue := waiting_queue w @ [c],
                clients := (clients w)
                  (c := (clients w c)
                     \<lparr>name := Some (uniq_loop (taken_names w) (strip n) 1 (strip n)),
                      outbox := outbox (clients w c) @
                        [welcome_msg True, queued_msg (1 + int (length (waiting_queue w)))]\<rparr>)\<rparr>)"
  using assms hello_is_dict [OF assms(1)]
  by (simp add: handshake_def client_send_def Let_def taken_names_upd)

lemma handshake_refuse_name:
  assumes "dict_get hello ''type'' JNull = Some (JStr ''hello'')"
    and "dict_get hello ''name'' JNull = Some v"
    and "\<not> is_str v \<or> (\<exists>n. v = JStr n \<and> strip n = [])"
  shows "handshake c hello w =
     (if conn (clients w c) = Open
      then Exit (upd_client c
                   (\<lambda>cl. cl\<lparr>outbox := outbox cl @ [welcome_msg True, illegal_msg ''bad name''],
                           conn := Closed, alive := False\<rparr>) w)
      else Raise (upd_client c (\<lambda>cl. cl\<lparr>alive := False\<rparr>) w))"
  using assms hello_is_dict [OF assms(1)]
  by (cases v) (auto simp: handshake_def refuse_def client_send_def client_close_def)

lemma strip_empty_iff: "strip n = [] \<longleftrightarrow> (\<forall>x\<in>set n. py_isspace x)"
proof
  assume "strip n = []"
  then have "dropWhile py_isspace (rev (dropWhile py_isspace n)) = []"
    by (simp only: strip_def rev_is_Nil_conv)
  then have a: "\<forall>x\<in>set (dropWhile py_isspace n). py_isspace x"
    by (metis dropWhile_eq_Nil_conv set_rev)
  have "dropWhile py_isspace n = []"
  proof (rule ccontr)
    assume ne: "dropWhile py_isspace n \<noteq> []"
    then have "\<not> py_isspace (hd (dropWhile py_isspace n))" by (rule hd_dropWhile)
    moreover have "hd (dropWhile py_isspace n) \<in> set (dropWhile py_isspace n)"
      using ne by (rule hd_in_set)
    ultimately show False using a by blast
  qed
  then show "\<forall>x\<in>set n. py_isspace x" by (simp add: dropWhile_eq_Nil_conv)
next
  assume "\<forall>x\<in>set n. py_isspace x"
  then have "dropWhile py_isspace n = []" by (simp add: dropWhile_eq_Nil_conv)
  then show "strip n = []" by (simp only: strip_def rev.simps dropWhile.simps)
qed

lemma strip_decomp:
  "\<exists>l r. n = l @ strip n @ r \<and> (\<forall>x\<in>set l. py_isspace x) \<and> (\<forall>x\<in>set r. py_isspace x) \<and>
         (strip n \<noteq> [] \<longrightarrow> \<not> py_isspace (hd (strip n)) \<and> \<not> py_isspace (last (strip n)))"
proof -
  let ?P = py_isspace
  let ?m = "dropWhile ?P n"
  let ?r = "rev (takeWhile ?P (rev ?m))"
  have m: "?m = strip n @ ?r"
  proof -
    have "takeWhile ?P (rev ?m) @ dropWhile ?P (rev ?m) = rev ?m"
      by (rule takeWhile_dropWhile_id)
    then have "rev (takeWhile ?P (rev ?m) @ dropWhile ?P (rev ?m)) = ?m"
      by (simp only: rev_rev_ident)
    then have "rev (dropWhile ?P (rev ?m)) @ rev (takeWhile ?P (rev ?m)) = ?m"
      by (simp only: rev_append)
    then show ?thesis by (simp only: strip_def)
  qed
  have n: "n = takeWhile ?P n @ strip n @ ?r"
    using m takeWhile_dropWhile_id [of ?P n] by metis
  have l: "\<forall>x\<in>set (takeWhile ?P n). ?P x" by (auto dest: set_takeWhileD)
  have r: "\<forall>x\<in>set ?r. ?P x" by (auto dest: set_takeWhileD)
  have e: "\<not> ?P (hd (strip n)) \<and> \<not> ?P (last (strip n))" if ne: "strip n \<noteq> []"
  proof -
    have "?m \<noteq> []" using m ne by (metis append_is_Nil_conv)
    then have "\<not> ?P (hd ?m)" by (rule hd_dropWhile)
    moreover have "hd ?m = hd (strip n)" using m ne by (metis hd_append2)
    moreover have "dropWhile ?P (rev ?m) \<noteq> []" using ne by (simp add: strip_def)
    then have "\<not> ?P (hd (dropWhile ?P (rev ?m)))" by (rule hd_dropWhile)
    moreover have "last (strip n) = hd (dropWhile ?P (rev ?m))"
      using ne by (simp add: strip_def last_rev)
    ultimately show ?thesis by simp
  qed
  show ?thesis using n l r e by blast
qed

lemma handshake_Continue_inv:
  assumes "handshake c hello w = Continue w'"
  shows "dict_get hello ''type'' JNull = Some (JStr ''hello'') \<and> conn (clients w c) = Open \<and>
         (\<exists>n. dict_get hello ''name'' JNull = Some (JStr n) \<and> strip n \<noteq> [])"
  using assms
  by (auto simp: handshake_def refuse_def client_send_def Let_def
           split: if_splits option.splits json.splits)

lemma uniq_loop_nonempty: "original \<noteq> [] \<Longrightarrow> uniq_loop taken original 1 original \<noteq> []"
  using uniq_loop_keep [where nm = original and taken = taken and original = original and i = 1]
    uniq_loop_next [where nm = original and taken = taken and original = original and i = 1]
  by (cases "original \<in> set taken") auto

lemma alice_second:
  "set taken = {''Alice''} \<Longrightarrow> uniq_loop taken ''Alice'' 1 ''Alice'' = ''Alice_2''"
  by (simp add: uniq_loop.simps dec.simps digit_char_def)

lemma alice_third:
  "set taken = {''Alice'', ''Alice_2''} \<Longrightarrow> uniq_loop taken ''Alice'' 1 ''Alice'' = ''Alice_3''"
  by (simp add: uniq_loop.simps dec.simps digit_char_def)

text \<open>
  C8. When a handshake succeeds for a session that is not yet queued, the name stored
  for it is not empty and is held by no queued session. It is the requested name,
  stripped, when no queued session holds that; otherwise it is the stripped name followed
  by \<^verbatim>\<open>_k\<close>, where \<open>k\<close> counts up from 2 and is the first suffix that is free. So a
  request for Alice becomes \<^verbatim>\<open>Alice_2\<close> while the queued names are Alice alone, and
  \<^verbatim>\<open>Alice_3\<close> while they are Alice and \<^verbatim>\<open>Alice_2\<close>.
\<close>

theorem name_collision_suffix:
  assumes "handshake c hello w = Continue w'"
    and "dict_get hello ''name'' JNull = Some (JStr n)"
    and "c \<notin> set (waiting_queue w)"
  shows "\<exists>nm. name (clients w' c) = Some nm \<and> nm \<noteq> [] \<and>
     (\<forall>q\<in>set (waiting_queue w). name (clients w q) \<noteq> Some nm) \<and>
     (strip n \<notin> set (taken_names w) \<longrightarrow> nm = strip n) \<and>
     (strip n \<in> set (taken_names w) \<longrightarrow>
        (\<exists>k\<ge>2. nm = strip n @ ''_'' @ dec k \<and>
               (\<forall>j. 2 \<le> j \<and> j < k \<longrightarrow> strip n @ ''_'' @ dec j \<in> set (taken_names w)))) \<and>
     (strip n = ''Alice'' \<and> set (taken_names w) = {''Alice''} \<longrightarrow> nm = ''Alice_2'') \<and>
     (strip n = ''Alice'' \<and> set (taken_names w) = {''Alice'', ''Alice_2''} \<longrightarrow>
        nm = ''Alice_3'')"
proof -
  let ?t = "taken_names w"
  let ?nm = "uniq_loop ?t (strip n) 1 (strip n)"
  from handshake_Continue_inv [OF assms(1)] assms(2)
  have i: "dict_get hello ''type'' JNull = Some (JStr ''hello'')" "conn (clients w c) = Open"
    "strip n \<noteq> []"
    by auto
  have nm: "name (clients w' c) = Some ?nm"
    using handshake_accept [OF i(1) assms(2) i(3) i(2) assms(3)] assms(1) by auto
  have ne: "?nm \<noteq> []" using i(3) by (rule uniq_loop_nonempty)
  have fresh: "?nm \<notin> set ?t" by (rule uniq_loop_fresh)
  then have q: "\<forall>q\<in>set (waiting_queue w). name (clients w q) \<noteq> Some ?nm"
    using ne by (auto simp: set_taken_names)
  have keep: "strip n \<notin> set ?t \<longrightarrow> ?nm = strip n"
    by (simp add: uniq_loop_keep)
  have nxt: "strip n \<in> set ?t \<longrightarrow>
        (\<exists>k\<ge>2. ?nm = strip n @ ''_'' @ dec k \<and>
               (\<forall>j. 2 \<le> j \<and> j < k \<longrightarrow> strip n @ ''_'' @ dec j \<in> set ?t))"
  proof
    assume "strip n \<in> set ?t"
    from uniq_loop_next [OF this, where original = "strip n" and i = 1]
    obtain k where k: "k > 1" "?nm = strip n @ ''_'' @ dec k"
      "\<forall>j. 1 < j \<and> j < k \<longrightarrow> strip n @ ''_'' @ dec j \<in> set ?t"
      by blast
    have "2 \<le> k" using k(1) by simp
    moreover have "\<forall>j. 2 \<le> j \<and> j < k \<longrightarrow> strip n @ ''_'' @ dec j \<in> set ?t"
      using k(3) by auto
    ultimately show "\<exists>k\<ge>2. ?nm = strip n @ ''_'' @ dec k \<and>
               (\<forall>j. 2 \<le> j \<and> j < k \<longrightarrow> strip n @ ''_'' @ dec j \<in> set ?t)"
      using k(2) by blast
  qed
  have a2: "strip n = ''Alice'' \<and> set ?t = {''Alice''} \<longrightarrow> ?nm = ''Alice_2''"
    using alice_second [of ?t] by auto
  have a3: "strip n = ''Alice'' \<and> set ?t = {''Alice'', ''Alice_2''} \<longrightarrow> ?nm = ''Alice_3''"
    using alice_third [of ?t] by auto
  show ?thesis using nm ne q keep nxt a2 a3 by blast
qed

theorem name_collision_suffix_witness:
  "(\<exists>w'. handshake 1 (JObj [(''type'', JStr ''hello''), (''name'', JStr ''Alice'')])
            (lobby_world (stub_position ''w'' []) [''Alice'']) = Continue w' \<and>
         name (clients w' 1) = Some ''Alice_2'') \<and>
   (\<exists>w'. handshake 2 (JObj [(''type'', JStr ''hello''), (''name'', JStr '' Alice '')])
            (lobby_world (stub_position ''w'' []) [''Alice'', ''Alice_2'']) = Continue w' \<and>
         name (clients w' 2) = Some ''Alice_3'') \<and>
   (\<exists>w'. handshake 2 (JObj [(''type'', JStr ''hello''), (''name'', JStr ''Bob'')])
            (lobby_world (stub_position ''w'' []) [''Alice'', ''Alice_2'']) = Continue w' \<and>
         name (clients w' 2) = Some ''Bob'')"
proof -
  let ?b = "stub_position ''w'' []"
  let ?h1 = "JObj [(''type'', JStr ''hello''), (''name'', JStr ''Alice'')]"
  let ?h2 = "JObj [(''type'', JStr ''hello''), (''name'', JStr '' Alice '')]"
  let ?h3 = "JObj [(''type'', JStr ''hello''), (''name'', JStr ''Bob'')]"
  let ?W1 = "lobby_world ?b [''Alice''] :: stub_board world"
  let ?W2 = "lobby_world ?b [''Alice'', ''Alice_2''] :: stub_board world"
  note ev = lobby_world_def handshake_def client_send_def ClientHandler_init_def
          strip_def py_isspace_def whitespace_chars_def Let_def upt_rec
  have s: "strip ''Alice'' = ''Alice''" "strip '' Alice '' = ''Alice''" "strip ''Bob'' = ''Bob''"
    by (simp_all add: strip_def py_isspace_def whitespace_chars_def)
  have t: "set (taken_names ?W1) = {''Alice''}"
    "set (taken_names ?W2) = {''Alice'', ''Alice_2''}"
    "''Bob'' \<notin> set (taken_names ?W2)"
    by (auto simp: taken_names_def lobby_world_def waiting_def ClientHandler_init_def upt_rec)
  have q: "1 \<notin> set (waiting_queue ?W1)" "2 \<notin> set (waiting_queue ?W2)"
    by (simp_all add: lobby_world_def upt_rec)
  have d: "dict_get ?h1 ''name'' JNull = Some (JStr ''Alice'')"
    "dict_get ?h2 ''name'' JNull = Some (JStr '' Alice '')"
    "dict_get ?h3 ''name'' JNull = Some (JStr ''Bob'')"
    by simp_all
  have "\<exists>w'. handshake 1 ?h1 ?W1 = Continue w'" by (simp add: ev)
  then obtain w1 where w1: "handshake 1 ?h1 ?W1 = Continue w1" by blast
  have "\<exists>w'. handshake 2 ?h2 ?W2 = Continue w'" by (simp add: ev)
  then obtain w2 where w2: "handshake 2 ?h2 ?W2 = Continue w2" by blast
  have "\<exists>w'. handshake 2 ?h3 ?W2 = Continue w'" by (simp add: ev)
  then obtain w3 where w3: "handshake 2 ?h3 ?W2 = Continue w3" by blast
  have r1: "name (clients w1 1) = Some ''Alice_2''"
    using name_collision_suffix [OF w1 d(1) q(1)] s t by auto
  have r2: "name (clients w2 2) = Some ''Alice_3''"
    using name_collision_suffix [OF w2 d(2) q(2)] s t by auto
  have r3: "name (clients w3 2) = Some ''Bob''"
    using name_collision_suffix [OF w3 d(3) q(2)] s t by auto
  show ?thesis using w1 w2 w3 r1 r2 r3 by blast
qed

section \<open>A refused name\<close>

lemma handshake_not_Continue:
  assumes "dict_get hello ''type'' JNull = Some (JStr ''hello'')"
    and "dict_get hello ''name'' JNull = Some v"
    and "\<not> is_str v \<or> (\<exists>n. v = JStr n \<and> strip n = [])"
  shows "waiting_queue (flow_state (handshake c hello w)) = waiting_queue w \<and>
         (\<forall>w'. handshake c hello w \<noteq> Continue w')"
  unfolding handshake_refuse_name [OF assms] by simp

lemma client_thread_refuse_name:
  assumes "dict_get hello ''type'' JNull = Some (JStr ''hello'')"
    and "dict_get hello ''name'' JNull = Some v"
    and "\<not> is_str v \<or> (\<exists>n. v = JStr n \<and> strip n = [])"
    and "recv_line env r = hello"
    and "c \<notin> set (waiting_queue w)"
  shows "client_thread env c (r # rs) w =
     w\<lparr>clients := (clients w)
          (c := ClientHandler_init
                  \<lparr>outbox := [welcome_msg True, illegal_msg ''bad name''],
                   conn := Closed, alive := False\<rparr>)\<rparr>"
  using assms(4,5)
  by (simp add: client_thread_def Let_def handshake_refuse_name [OF assms(1-3)]
        cleanup_def client_close_def ClientHandler_init_def)

text \<open>
  C10. Take a hello whose \<^verbatim>\<open>name\<close> field is \<open>v\<close>. When \<open>v\<close> is not a string, or is
  a string of whitespace only, the handshake never goes on to the queue: the queue stays
  as it was, and on an open socket the client gets the welcome and then \<^verbatim>\<open>illegal\<close>
  with reason \<^verbatim>\<open>bad name\<close>, after which its socket is closed and it is marked dead; the
  whole thread of a new client then ends in that state. When \<open>v\<close> is a string with more
  than whitespace, a new client on an open socket is queued under the stripped name, or
  under the name the suffix loop makes of it. Stripping removes a run of whitespace at
  each end and leaves a string that neither starts nor ends with whitespace.
\<close>

theorem bad_name_refused:
  assumes "dict_get hello ''type'' JNull = Some (JStr ''hello'')"
    and "dict_get hello ''name'' JNull = Some v"
  shows "(\<not> is_str v \<or> (\<exists>n. v = JStr n \<and> (\<forall>x\<in>set n. py_isspace x)) \<longrightarrow>
       waiting_queue (flow_state (handshake c hello w)) = waiting_queue w \<and>
       (\<forall>w'. handshake c hello w \<noteq> Continue w') \<and>
       (conn (clients w c) = Open \<longrightarrow>
          handshake c hello w =
            Exit (upd_client c
                    (\<lambda>cl. cl\<lparr>outbox := outbox cl @ [welcome_msg True, illegal_msg ''bad name''],
                            conn := Closed, alive := False\<rparr>) w)) \<and>
       (recv_line env r = hello \<and> c \<notin> set (waiting_queue w) \<longrightarrow>
          client_thread env c (r # rs) w =
            w\<lparr>clients := (clients w)
                 (c := ClientHandler_init
                         \<lparr>outbox := [welcome_msg True, illegal_msg ''bad name''],
                          conn := Closed, alive := False\<rparr>)\<rparr>)) \<and>
     (\<forall>n. v = JStr n \<and> \<not> (\<forall>x\<in>set n. py_isspace x) \<and> conn (clients w c) = Open \<and>
          c \<notin> set (waiting_queue w) \<longrightarrow>
        (\<exists>w'. handshake c hello w = Continue w' \<and>
              name (clients w' c) = Some (uniq_loop (taken_names w) (strip n) 1 (strip n)) \<and>
              (strip n \<notin> set (taken_names w) \<longrightarrow> name (clients w' c) = Some (strip n)) \<and>
              waiting_queue w' = waiting_queue w @ [c])) \<and>
     (\<forall>n. \<exists>l r. n = l @ strip n @ r \<and>
            (\<forall>x\<in>set l. py_isspace x) \<and> (\<forall>x\<in>set r. py_isspace x) \<and>
            (strip n \<noteq> [] \<longrightarrow>
               \<not> py_isspace (hd (strip n)) \<and> \<not> py_isspace (last (strip n))))"
proof (intro conjI allI impI)
  assume b: "\<not> is_str v \<or> (\<exists>n. v = JStr n \<and> (\<forall>x\<in>set n. py_isspace x))"
  then have b': "\<not> is_str v \<or> (\<exists>n. v = JStr n \<and> strip n = [])"
    by (simp add: strip_empty_iff)
  show "waiting_queue (flow_state (handshake c hello w)) = waiting_queue w"
    using handshake_not_Continue [OF assms b', of c w] by blast
  show "\<And>w'. handshake c hello w \<noteq> Continue w'"
    using handshake_not_Continue [OF assms b', of c w] by blast
  show "handshake c hello w =
            Exit (upd_client c
                    (\<lambda>cl. cl\<lparr>outbox := outbox cl @ [welcome_msg True, illegal_msg ''bad name''],
                            conn := Closed, alive := False\<rparr>) w)"
    if "conn (clients w c) = Open"
    using handshake_refuse_name [OF assms b', of c w] that by simp
  show "client_thread env c (r # rs) w =
            w\<lparr>clients := (clients w)
                 (c := ClientHandler_init
                         \<lparr>outbox := [welcome_msg True, illegal_msg ''bad name''],
                          conn := Closed, alive := False\<rparr>)\<rparr>"
    if "recv_line env r = hello \<and> c \<notin> set (waiting_queue w)"
    using client_thread_refuse_name [OF assms b', of env r c w rs] that by blast
next
  fix n
  assume a: "v = JStr n \<and> \<not> (\<forall>x\<in>set n. py_isspace x) \<and> conn (clients w c) = Open \<and>
          c \<notin> set (waiting_queue w)"
  then have ne: "strip n \<noteq> []" by (simp add: strip_empty_iff)
  have d: "dict_get hello ''name'' JNull = Some (JStr n)" using assms(2) a by simp
  have o: "conn (clients w c) = Open" and q: "c \<notin> set (waiting_queue w)" using a by simp_all
  show "\<exists>w'. handshake c hello w = Continue w' \<and>
              name (clients w' c) = Some (uniq_loop (taken_names w) (strip n) 1 (strip n)) \<and>
              (strip n \<notin> set (taken_names w) \<longrightarrow> name (clients w' c) = Some (strip n)) \<and>
              waiting_queue w' = waiting_queue w @ [c]"
    unfolding handshake_accept [OF assms(1) d ne o q]
    by (simp add: uniq_loop_keep)
next
  fix n
  show "\<exists>l r. n = l @ strip n @ r \<and>
            (\<forall>x\<in>set l. py_isspace x) \<and> (\<forall>x\<in>set r. py_isspace x) \<and>
            (strip n \<noteq> [] \<longrightarrow>
               \<not> py_isspace (hd (strip n)) \<and> \<not> py_isspace (last (strip n)))"
    by (rule strip_decomp)
qed

theorem bad_name_refused_witness:
  "recv_line (stub_env []) (Some (hello_line ''  '' @ [CHR 0x0A])) =
     JObj [(''type'', JStr ''hello''), (''name'', JStr ''  '')] \<and>
   strip ''  '' = [] \<and>
   waiting_queue (client_thread (stub_env []) 1 [Some (hello_line ''  '' @ [CHR 0x0A])]
                    (lobby_world (stub_position ''w'' []) [''Ann''])) = [0] \<and>
   conn (clients (client_thread (stub_env []) 1 [Some (hello_line ''  '' @ [CHR 0x0A])]
                    (lobby_world (stub_position ''w'' []) [''Ann''])) 1) = Closed \<and>
   outbox (clients (client_thread (stub_env []) 1 [Some (hello_line ''  '' @ [CHR 0x0A])]
                    (lobby_world (stub_position ''w'' []) [''Ann''])) 1) =
     [welcome_msg True, illegal_msg ''bad name''] \<and>
   (\<exists>w'. handshake 1 (JObj [(''type'', JStr ''hello''), (''name'', JStr '' Bob '')])
            (lobby_world (stub_position ''w'' []) [''Ann'']) = Continue w' \<and>
         name (clients w' 1) = Some ''Bob'' \<and> waiting_queue w' = [0, 1])"
proof -
  let ?W = "lobby_world (stub_position ''w'' []) [''Ann''] :: stub_board world"
  let ?r = "Some (hello_line ''  '' @ [CHR 0x0A])"
  let ?h = "JObj [(''type'', JStr ''hello''), (''name'', JStr ''  '')]"
  let ?hb = "JObj [(''type'', JStr ''hello''), (''name'', JStr '' Bob '')]"
  have rl: "recv_line (stub_env []) ?r = ?h"
    by (simp add: recv_line_def stub_env_def stub_loads_def stub_table_def hello_line_def
          dquote_def strip_def py_isspace_def whitespace_chars_def)
  have sp: "\<forall>x\<in>set ''  ''. py_isspace x" "\<not> (\<forall>x\<in>set '' Bob ''. py_isspace x)"
    by (simp_all add: py_isspace_def whitespace_chars_def)
  have w: "1 \<notin> set (waiting_queue ?W)" "waiting_queue ?W = [0]"
    "conn (clients ?W 1) = Open" "''Bob'' \<notin> set (taken_names ?W)"
    by (simp_all add: lobby_world_def ClientHandler_init_def taken_names_def waiting_def)
  have sb: "strip '' Bob '' = ''Bob''"
    by (simp add: strip_def py_isspace_def whitespace_chars_def)
  have d: "dict_get ?h ''type'' JNull = Some (JStr ''hello'')"
    "dict_get ?h ''name'' JNull = Some (JStr ''  '')"
    "dict_get ?hb ''type'' JNull = Some (JStr ''hello'')"
    "dict_get ?hb ''name'' JNull = Some (JStr '' Bob '')"
    by simp_all
  have a: "client_thread (stub_env []) 1 [?r] ?W =
            ?W\<lparr>clients := (clients ?W)
                 (1 := ClientHandler_init
                         \<lparr>outbox := [welcome_msg True, illegal_msg ''bad name''],
                          conn := Closed, alive := False\<rparr>)\<rparr>"
    using bad_name_refused [OF d(1,2), of 1 ?W "stub_env []" ?r "[]", THEN conjunct1]
      rl sp(1) w(1)
    by blast
  have b: "\<exists>w'. handshake 1 ?hb ?W = Continue w' \<and>
         name (clients w' 1) = Some ''Bob'' \<and> waiting_queue w' = [0, 1]"
  proof -
    have "\<forall>n. JStr '' Bob '' = JStr n \<and> \<not> (\<forall>x\<in>set n. py_isspace x) \<and>
            conn (clients ?W 1) = Open \<and> 1 \<notin> set (waiting_queue ?W) \<longrightarrow>
        (\<exists>w'. handshake 1 ?hb ?W = Continue w' \<and>
              name (clients w' 1) = Some (uniq_loop (taken_names ?W) (strip n) 1 (strip n)) \<and>
              (strip n \<notin> set (taken_names ?W) \<longrightarrow> name (clients w' 1) = Some (strip n)) \<and>
              waiting_queue w' = waiting_queue ?W @ [1])"
      using bad_name_refused [OF d(3,4), of 1 ?W "stub_env []" ?r "[]",
              THEN conjunct2, THEN conjunct1]
      by blast
    from this [rule_format, of "'' Bob ''"] sp(2) w sb show ?thesis by auto
  qed
  have se: "strip ''  '' = []"
    by (simp add: strip_def py_isspace_def whitespace_chars_def)
  show ?thesis
    unfolding a using rl se w(2) b by simp
qed

section \<open>Decoding a line\<close>

lemma loop_body_bad_json:
  assumes "conn (clients w c) = Open"
  shows "loop_body env c bad_json_marker w =
     Continue (upd_client c (\<lambda>cl. cl\<lparr>outbox := outbox cl @ [illegal_msg ''bad json'']\<rparr>) w)"
  using assms by (simp add: loop_body_def bad_json_marker_def client_send_def)

lemma strip_newline:
  "line \<noteq> [] \<Longrightarrow> \<not> py_isspace (hd line) \<Longrightarrow> \<not> py_isspace (last line) \<Longrightarrow>
   strip (line @ [CHR 0x0A]) = line"
proof -
  assume ne: "line \<noteq> []" and h: "\<not> py_isspace (hd line)" and l: "\<not> py_isspace (last line)"
  have nl: "py_isspace (CHR 0x0A)" by (simp add: py_isspace_def whitespace_chars_def)
  have a: "dropWhile py_isspace (line @ [CHR 0x0A]) = line @ [CHR 0x0A]"
    using ne h by (cases line) simp_all
  have r: "rev line \<noteq> []" "\<not> py_isspace (hd (rev line))"
    using ne l by (simp_all add: hd_rev)
  have b: "dropWhile py_isspace (rev (line @ [CHR 0x0A])) = rev line"
    using nl r by (cases "rev line") simp_all
  show ?thesis unfolding strip_def a b by simp
qed

lemma brackets_line:
  "strip (replicate 2000 (CHR ''['') @ [CHR 0x0A]) = replicate 2000 (CHR ''['')"
  by (rule strip_newline) (simp_all add: py_isspace_def whitespace_chars_def last_replicate)

lemma brackets_raise:
  "json_loads (stub_env []) (replicate 2000 (CHR ''['')) = OtherError"
  by (simp add: stub_env_def stub_loads_def)

text \<open>
  C9, as the code has it. \<^verbatim>\<open>recv_line\<close> returns \<^verbatim>\<open>None\<close> at the end of the stream,
  when the read raises, and when the decoder raises an exception other than
  \<^verbatim>\<open>JSONDecodeError\<close>; on \<^verbatim>\<open>JSONDecodeError\<close> it returns the marker, which differs from
  \<^verbatim>\<open>None\<close>; a line that decodes to a value other than \<^verbatim>\<open>None\<close> gives that value. On
  the marker, a live client with an open socket gets \<^verbatim>\<open>illegal\<close> with reason
  \<^verbatim>\<open>bad json\<close> and nothing else of the state changes, so the client stays alive and its
  socket open, and the read loop goes on with the lines that follow. On \<^verbatim>\<open>None\<close> the
  client is marked dead and the loop is left.
\<close>

theorem bad_json_continues:
  "(r = None \<or> r = Some [] \<or>
    (\<exists>l. r = Some l \<and> l \<noteq> [] \<and> json_loads env (strip l) = OtherError) \<longrightarrow>
      recv_line env r = JNull) \<and>
   (line \<noteq> [] \<and> json_loads env (strip line) = DecodeError \<longrightarrow>
      recv_line env (Some line) = bad_json_marker) \<and>
   (\<forall>v. line \<noteq> [] \<and> json_loads env (strip line) = Decoded v \<and> v \<noteq> JNull \<longrightarrow>
      recv_line env (Some line) = v \<and> recv_line env (Some line) \<noteq> JNull) \<and>
   bad_json_marker \<noteq> JNull \<and>
   (alive (clients w c) \<and> conn (clients w c) = Open \<and> recv_line env r = bad_json_marker \<longrightarrow>
      loop_body env c (recv_line env r) w =
        Continue (upd_client c (\<lambda>cl. cl\<lparr>outbox := outbox cl @ [illegal_msg ''bad json'']\<rparr>) w) \<and>
      client_loop env c (r # rs) w =
        client_loop env c rs
          (upd_client c (\<lambda>cl. cl\<lparr>outbox := outbox cl @ [illegal_msg ''bad json'']\<rparr>) w) \<and>
      alive (clients (upd_client c (\<lambda>cl. cl\<lparr>outbox := outbox cl @ [illegal_msg ''bad json'']\<rparr>) w) c) \<and>
      conn (clients (upd_client c (\<lambda>cl. cl\<lparr>outbox := outbox cl @ [illegal_msg ''bad json'']\<rparr>) w) c)
        = Open) \<and>
   (alive (clients w c) \<and> recv_line env r = JNull \<longrightarrow>
      client_loop env c (r # rs) w = Exit (upd_client c (\<lambda>cl. cl\<lparr>alive := False\<rparr>) w))"
proof -
  have 1: "r = None \<or> r = Some [] \<or>
    (\<exists>l. r = Some l \<and> l \<noteq> [] \<and> json_loads env (strip l) = OtherError) \<longrightarrow>
      recv_line env r = JNull"
    by (auto simp: recv_line_def)
  have 2: "line \<noteq> [] \<and> json_loads env (strip line) = DecodeError \<longrightarrow>
      recv_line env (Some line) = bad_json_marker"
    by (simp add: recv_line_def)
  have 3: "\<forall>v. line \<noteq> [] \<and> json_loads env (strip line) = Decoded v \<and> v \<noteq> JNull \<longrightarrow>
      recv_line env (Some line) = v \<and> recv_line env (Some line) \<noteq> JNull"
    by (simp add: recv_line_def)
  have 4: "bad_json_marker \<noteq> JNull" by (simp add: bad_json_marker_def)
  have 5: "alive (clients w c) \<and> conn (clients w c) = Open \<and> recv_line env r = bad_json_marker \<longrightarrow>
      loop_body env c (recv_line env r) w =
        Continue (upd_client c (\<lambda>cl. cl\<lparr>outbox := outbox cl @ [illegal_msg ''bad json'']\<rparr>) w) \<and>
      client_loop env c (r # rs) w =
        client_loop env c rs
          (upd_client c (\<lambda>cl. cl\<lparr>outbox := outbox cl @ [illegal_msg ''bad json'']\<rparr>) w) \<and>
      alive (clients (upd_client c (\<lambda>cl. cl\<lparr>outbox := outbox cl @ [illegal_msg ''bad json'']\<rparr>) w) c) \<and>
      conn (clients (upd_client c (\<lambda>cl. cl\<lparr>outbox := outbox cl @ [illegal_msg ''bad json'']\<rparr>) w) c)
        = Open"
    by (simp add: loop_body_bad_json)
  have 6: "alive (clients w c) \<and> recv_line env r = JNull \<longrightarrow>
      client_loop env c (r # rs) w = Exit (upd_client c (\<lambda>cl. cl\<lparr>alive := False\<rparr>) w)"
    by (simp add: loop_body_def)
  show ?thesis using 1 2 3 4 5 6 by blast
qed

theorem bad_json_continues_witness:
  "json_loads (stub_env []) (strip (replicate 2000 (CHR ''['') @ [CHR 0x0A])) = OtherError \<and>
   recv_line (stub_env []) (Some (replicate 2000 (CHR ''['') @ [CHR 0x0A])) = JNull \<and>
   json_loads (stub_env []) (strip (''true'' @ [CHR 0x0A])) = Decoded (JBool True) \<and>
   recv_line (stub_env []) (Some (''true'' @ [CHR 0x0A])) = JBool True \<and>
   json_loads (stub_env []) (strip (''move e2e4'' @ [CHR 0x0A])) = DecodeError \<and>
   recv_line (stub_env []) (Some (''move e2e4'' @ [CHR 0x0A])) = bad_json_marker \<and>
   alive (clients (lobby_world (stub_position ''w'' []) [''Ann'']) 0) \<and>
   conn (clients (lobby_world (stub_position ''w'' []) [''Ann'']) 0) = Open \<and>
   client_loop (stub_env []) 0 [Some (''move e2e4'' @ [CHR 0x0A]), Some []]
       (lobby_world (stub_position ''w'' []) [''Ann'']) =
     Exit (upd_client 0 (\<lambda>cl. cl\<lparr>alive := False\<rparr>)
            (upd_client 0 (\<lambda>cl. cl\<lparr>outbox := outbox cl @ [illegal_msg ''bad json'']\<rparr>)
               (lobby_world (stub_position ''w'' []) [''Ann''])))"
proof -
  let ?W = "lobby_world (stub_position ''w'' []) [''Ann''] :: stub_board world"
  let ?W' = "upd_client 0 (\<lambda>cl. cl\<lparr>outbox := outbox cl @ [illegal_msg ''bad json'']\<rparr>) ?W"
  let ?l = "''move e2e4'' @ [CHR 0x0A]"
  let ?t = "''true'' @ [CHR 0x0A]"
  let ?b = "replicate 2000 (CHR ''['') @ [CHR 0x0A]"
  have l: "?l \<noteq> []" "json_loads (stub_env []) (strip ?l) = DecodeError"
    by (simp_all add: stub_env_def stub_loads_def stub_table_def hello_line_def dquote_def
          strip_def py_isspace_def whitespace_chars_def)
  have t: "?t \<noteq> []" "json_loads (stub_env []) (strip ?t) = Decoded (JBool True)"
    "JBool True \<noteq> JNull"
    by (simp_all add: stub_env_def stub_loads_def stub_table_def hello_line_def dquote_def
          strip_def py_isspace_def whitespace_chars_def)
  have b: "?b \<noteq> []" "json_loads (stub_env []) (strip ?b) = OtherError"
    by (simp_all add: brackets_line brackets_raise)
  have a: "alive (clients ?W 0)" "conn (clients ?W 0) = Open" "alive (clients ?W' 0)"
    by (simp_all add: lobby_world_def waiting_def ClientHandler_init_def)
  note th1 = bad_json_continues [of "Some ?b" "stub_env []" ?l ?W 0 "[]"]
  note th2 = bad_json_continues [of "Some ?l" "stub_env []" ?t ?W 0 "[Some []]"]
  note th3 = bad_json_continues [of "Some []" "stub_env []" ?l ?W' 0 "[]"]
  have rb: "recv_line (stub_env []) (Some ?b) = JNull"
    using th1 [THEN conjunct1] b by blast
  have m: "recv_line (stub_env []) (Some ?l) = bad_json_marker"
    using th1 [THEN conjunct2, THEN conjunct1] l by blast
  have rt: "recv_line (stub_env []) (Some ?t) = JBool True"
    using th2 [THEN conjunct2, THEN conjunct2, THEN conjunct1] t by blast
  have s1: "client_loop (stub_env []) 0 [Some ?l, Some []] ?W =
              client_loop (stub_env []) 0 [Some []] ?W'"
    using th2 [THEN conjunct2, THEN conjunct2, THEN conjunct2, THEN conjunct2, THEN conjunct1]
      a(1,2) m by blast
  have e: "recv_line (stub_env []) (Some []) = JNull"
    using th3 [THEN conjunct1] by blast
  have s2: "client_loop (stub_env []) 0 [Some []] ?W' =
              Exit (upd_client 0 (\<lambda>cl. cl\<lparr>alive := False\<rparr>) ?W')"
    using th3 [THEN conjunct2, THEN conjunct2, THEN conjunct2, THEN conjunct2, THEN conjunct2]
      a(3) e by blast
  show ?thesis using b(2) rb t(2) rt l(2) m a(1,2) s1 s2 by simp
qed

text \<open>
  C9 as the spec words it fails twice. The line \<^verbatim>\<open>null\<close> is valid JSON and decodes to
  \<^verbatim>\<open>None\<close>, the value that stands for the end of the stream; a line that opens two
  thousand lists makes the decoder raise an error that is not a \<^verbatim>\<open>JSONDecodeError\<close>,
  and \<^verbatim>\<open>recv_line\<close> returns \<^verbatim>\<open>None\<close> for it too. In both runs the client is marked
  dead at that line and the loop is left: nothing is sent, and the malformed line that
  follows is never read.
\<close>

theorem bad_json_counterexample:
  "recv_line (stub_env []) (Some (''null'' @ [CHR 0x0A])) = recv_line (stub_env []) (Some []) \<and>
   \<not> alive (clients (flow_state (client_loop (stub_env []) 0
                [Some (''null'' @ [CHR 0x0A]), Some (''move e2e4'' @ [CHR 0x0A])]
                (lobby_world (stub_position ''w'' []) [''Ann'']))) 0) \<and>
   outbox (clients (flow_state (client_loop (stub_env []) 0
                [Some (''null'' @ [CHR 0x0A]), Some (''move e2e4'' @ [CHR 0x0A])]
                (lobby_world (stub_position ''w'' []) [''Ann'']))) 0) = [] \<and>
   recv_line (stub_env []) (Some (replicate 2000 (CHR ''['') @ [CHR 0x0A])) =
     recv_line (stub_env []) (Some []) \<and>
   recv_line (stub_env []) (Some (replicate 2000 (CHR ''['') @ [CHR 0x0A])) \<noteq> bad_json_marker \<and>
   \<not> alive (clients (flow_state (client_loop (stub_env []) 0
                [Some (replicate 2000 (CHR ''['') @ [CHR 0x0A]),
                 Some (''move e2e4'' @ [CHR 0x0A])]
                (lobby_world (stub_position ''w'' []) [''Ann'']))) 0) \<and>
   outbox (clients (flow_state (client_loop (stub_env []) 0
                [Some (replicate 2000 (CHR ''['') @ [CHR 0x0A]),
                 Some (''move e2e4'' @ [CHR 0x0A])]
                (lobby_world (stub_position ''w'' []) [''Ann'']))) 0) = []"
proof -
  let ?W = "lobby_world (stub_position ''w'' []) [''Ann''] :: stub_board world"
  let ?n = "''null'' @ [CHR 0x0A]"
  let ?b = "replicate 2000 (CHR ''['') @ [CHR 0x0A]"
  have e: "recv_line (stub_env []) (Some []) = JNull" by (simp add: recv_line_def)
  have n: "recv_line (stub_env []) (Some ?n) = JNull"
    by (simp add: recv_line_def stub_env_def stub_loads_def stub_table_def
          strip_def py_isspace_def whitespace_chars_def)
  have b: "recv_line (stub_env []) (Some ?b) = JNull"
    using brackets_line brackets_raise by (simp add: recv_line_def)
  have a: "alive (clients ?W 0)" "outbox (clients ?W 0) = []"
    by (simp_all add: lobby_world_def waiting_def ClientHandler_init_def)
  have ln: "client_loop (stub_env []) 0 (Some ?n # rs) ?W =
              Exit (upd_client 0 (\<lambda>cl. cl\<lparr>alive := False\<rparr>) ?W)" for rs
    using a(1) n by (simp add: loop_body_def)
  have lb: "client_loop (stub_env []) 0 (Some ?b # rs) ?W =
              Exit (upd_client 0 (\<lambda>cl. cl\<lparr>alive := False\<rparr>) ?W)" for rs
    using a(1) b by (simp add: loop_body_def)
  show ?thesis
    unfolding ln lb using e n b a(2) by (simp add: bad_json_marker_def)
qed

end
